theory Spec2Isabelle
  imports Complex_Main "HOL-Library.Multiset"
begin

section \<open>Strings and characters\<close>

text \<open>
  A JavaScript string is modelled as a \<^typ>\<open>string\<close>: a list of 8-bit code units (the
  Latin-1 range of UTF-16). \<open>length\<close> is the \<open>.length\<close> of the source.
\<close>

definition code :: "char \<Rightarrow> nat" where
  "code c = of_char c"

definition is_digit :: "char \<Rightarrow> bool" where
  "is_digit c \<longleftrightarrow> 48 \<le> code c \<and> code c \<le> 57"

definition is_upper :: "char \<Rightarrow> bool" where
  "is_upper c \<longleftrightarrow> 65 \<le> code c \<and> code c \<le> 90"

definition is_lower :: "char \<Rightarrow> bool" where
  "is_lower c \<longleftrightarrow> 97 \<le> code c \<and> code c \<le> 122"

text \<open>\<open>\w\<close> of a regular expression: \<open>[A-Za-z0-9_]\<close>.\<close>

definition is_word :: "char \<Rightarrow> bool" where
  "is_word c \<longleftrightarrow> is_upper c \<or> is_lower c \<or> is_digit c \<or> code c = 95"

text \<open>\<open>\s\<close>: tab, line feed, vertical tab, form feed, carriage return, space, no-break space.\<close>

definition is_space :: "char \<Rightarrow> bool" where
  "is_space c \<longleftrightarrow> (9 \<le> code c \<and> code c \<le> 13) \<or> code c = 32 \<or> code c = 160"

text \<open>\<open>.\<close> (without the \<open>s\<close> flag): any code unit that is not a line terminator.\<close>

definition is_dot :: "char \<Rightarrow> bool" where
  "is_dot c \<longleftrightarrow> code c \<noteq> 10 \<and> code c \<noteq> 13"

text \<open>
  Case folding of the \<open>i\<close> flag. Every literal of the patterns below is ASCII, and an ASCII
  literal is matched under \<open>i\<close> by itself and, for a letter, by its other case only.
\<close>

definition canonicalize :: "char \<Rightarrow> char" where
  "canonicalize c = (if is_lower c then char_of (code c - 32) else c)"

definition chr_eq :: "bool \<Rightarrow> char \<Rightarrow> char \<Rightarrow> bool" where
  "chr_eq ci c x = (if ci then canonicalize c = canonicalize x else c = x)"

section \<open>Regular expressions: \<open>RegExp.prototype.test\<close>\<close>

text \<open>
  The regular-expression literals of \<open>utils/security.ts\<close> and \<open>middleware/validation.ts\<close>
  are written as syntax trees, one constructor per construct of the literal. A position is the
  code unit before the cursor (for \<open>\b\<close> and \<open>^\<close>) and the rest of the input.
  \<open>ms ci r p\<close> lists every position at which a match of \<open>r\<close> that starts at \<open>p\<close> can end;
  \<open>test\<close> only asks whether a match exists, so greedy and lazy quantifiers coincide.
\<close>

datatype rx =
    Chr char
  | Cls "char \<Rightarrow> bool"
  | Epsilon
  | Seq rx rx
  | Alt rx rx
  | Star rx
  | NotAhead rx
  | WordB
  | Bol
  | Eol

type_synonym pos = "char option \<times> string"

definition word_before :: "pos \<Rightarrow> bool" where
  "word_before p = (case fst p of None \<Rightarrow> False | Some c \<Rightarrow> is_word c)"

definition word_after :: "pos \<Rightarrow> bool" where
  "word_after p = (case snd p of [] \<Rightarrow> False | c # _ \<Rightarrow> is_word c)"

text \<open>
  Repetition: an iteration that consumes nothing is dropped (as ECMAScript does), so at most
  one iteration per remaining code unit is needed.
\<close>

primrec iter :: "(pos \<Rightarrow> pos list) \<Rightarrow> nat \<Rightarrow> pos \<Rightarrow> pos list" where
  "iter f 0 p = [p]"
| "iter f (Suc n) p =
     p # concat (map (iter f n) (filter (\<lambda>q. length (snd q) < length (snd p)) (f p)))"

primrec ms :: "bool \<Rightarrow> rx \<Rightarrow> pos \<Rightarrow> pos list" where
  "ms ci (Chr c) p =
     (case snd p of [] \<Rightarrow> [] | x # xs \<Rightarrow> if chr_eq ci c x then [(Some x, xs)] else [])"
| "ms ci (Cls f) p =
     (case snd p of [] \<Rightarrow> [] | x # xs \<Rightarrow> if f x then [(Some x, xs)] else [])"
| "ms ci Epsilon p = [p]"
| "ms ci (Seq a b) p = concat (map (ms ci b) (ms ci a p))"
| "ms ci (Alt a b) p = ms ci a p @ ms ci b p"
| "ms ci (Star a) p = iter (ms ci a) (length (snd p)) p"
| "ms ci (NotAhead a) p = (if ms ci a p = [] then [p] else [])"
| "ms ci WordB p = (if word_before p \<noteq> word_after p then [p] else [])"
| "ms ci Bol p = (if fst p = None then [p] else [])"
| "ms ci Eol p = (if snd p = [] then [p] else [])"

text \<open>An unanchored search tries every start position, left to right.\<close>

fun search :: "bool \<Rightarrow> rx \<Rightarrow> char option \<Rightarrow> string \<Rightarrow> bool" where
  "search ci r prev [] = (ms ci r (prev, []) \<noteq> [])"
| "search ci r prev (x # xs) = (ms ci r (prev, x # xs) \<noteq> [] \<or> search ci r (Some x) xs)"

text \<open>
  \<open>pattern.test(input)\<close> for a freshly created pattern (\<open>lastIndex = 0\<close>): the pattern
  arrays of the source are rebuilt at every call, so the \<open>g\<close> flag has no effect.
\<close>

definition regex_test :: "bool \<Rightarrow> rx \<Rightarrow> string \<Rightarrow> bool" where
  "regex_test ci r input = search ci r None input"

fun lit :: "string \<Rightarrow> rx" where
  "lit [] = Epsilon"
| "lit [c] = Chr c"
| "lit (c # cs) = Seq (Chr c) (lit cs)"

fun alts :: "rx list \<Rightarrow> rx" where
  "alts [] = NotAhead Epsilon"
| "alts [r] = r"
| "alts (r # rs) = Alt r (alts rs)"

definition one_or_more :: "rx \<Rightarrow> rx" where
  "one_or_more r = Seq r (Star r)"

section \<open>Security filter (\<open>utils/security.ts\<close>)\<close>

definition sql_keywords :: "string list" where
  "sql_keywords = [''SELECT'', ''INSERT'', ''UPDATE'', ''DELETE'', ''DROP'', ''CREATE'',
     ''ALTER'', ''EXEC'', ''EXECUTE'', ''UNION'', ''DECLARE'']"

text \<open>\<^verbatim>\<open>/(\b(SELECT|INSERT|UPDATE|DELETE|DROP|CREATE|ALTER|EXEC|EXECUTE|UNION|DECLARE)\b)/gi\<close>\<close>

definition sql_keyword_rx :: rx where
  "sql_keyword_rx = Seq WordB (Seq (alts (map lit sql_keywords)) WordB)"

text \<open>\<^verbatim>\<open>/(--|\#|\/\*|\*\/)/g\<close>\<close>

definition sql_comment_rx :: rx where
  "sql_comment_rx = alts [lit ''--'', lit ''#'', lit ''/*'', lit ''*/'']"

text \<open>\<^verbatim>\<open>/('|"|;|\\)/g\<close>: single quote, double quote, semicolon, backslash.\<close>

definition sql_quote_rx :: rx where
  "sql_quote_rx = alts [Chr (CHR 0x27), Chr (CHR 0x22), Chr CHR '';'', Chr (CHR 0x5C)]"

text \<open>\<^verbatim>\<open>/(\bOR\b|\bAND\b).*?=.*?/gi\<close>\<close>

definition sql_bool_rx :: rx where
  "sql_bool_rx =
     Seq (Alt (Seq WordB (Seq (lit ''OR'') WordB)) (Seq WordB (Seq (lit ''AND'') WordB)))
       (Seq (Star (Cls is_dot)) (Seq (Chr CHR ''='') (Star (Cls is_dot))))"

definition sqlPatterns :: "(bool \<times> rx) list" where
  "sqlPatterns =
     [(True, sql_keyword_rx), (False, sql_comment_rx), (False, sql_quote_rx), (True, sql_bool_rx)]"

definition containsSQLInjection :: "string \<Rightarrow> bool" where
  "containsSQLInjection input = list_ex (\<lambda>(ci, pattern). regex_test ci pattern input) sqlPatterns"

definition not_lt :: "char \<Rightarrow> bool" where
  "not_lt c \<longleftrightarrow> c \<noteq> CHR ''<''"

text \<open>\<^verbatim>\<open>/<script\b[^<]*(?:(?!<\/script>)<[^<]*)*<\/script>/gi\<close>\<close>

definition xss_script_rx :: rx where
  "xss_script_rx =
     Seq (lit ''<script'') (Seq WordB (Seq (Star (Cls not_lt))
       (Seq (Star (Seq (NotAhead (lit ''</script>'')) (Seq (Chr CHR ''<'') (Star (Cls not_lt)))))
         (lit ''</script>''))))"

text \<open>\<^verbatim>\<open>/on\w+\s*=/gi\<close>\<close>

definition xss_handler_rx :: rx where
  "xss_handler_rx =
     Seq (lit ''on'') (Seq (one_or_more (Cls is_word)) (Seq (Star (Cls is_space)) (Chr CHR ''='')))"

definition xssPatterns :: "(bool \<times> rx) list" where
  "xssPatterns =
     [(True, xss_script_rx), (True, lit ''javascript:''), (True, xss_handler_rx),
      (True, lit ''<iframe''), (True, lit ''<object''), (True, lit ''<embed'')]"

definition containsXSS :: "string \<Rightarrow> bool" where
  "containsXSS input = list_ex (\<lambda>(ci, pattern). regex_test ci pattern input) xssPatterns"

definition securityCheck :: "string \<Rightarrow> string list" where
  "securityCheck input =
     (if containsSQLInjection input then [''Potential SQL injection detected''] else []) @
     (if containsXSS input then [''Potential XSS attack detected''] else [])"

section \<open>Validation layer (\<open>middleware/validation.ts\<close>)\<close>

text \<open>
  The schemas are Joi schemas; validation is \<open>schema.validate\<close> with the options
  \<open>abortEarly\<close> and \<open>stripUnknown\<close>. The interpreter below follows Joi for the rule kinds
  these schemas use: a value in the \<open>valid\<close> list is accepted at once; a value that is not a
  string (\<open>string.base\<close>) or is the empty string (\<open>string.empty\<close>) ends the checks of its
  key; otherwise every rule runs in the order written and, unless \<open>abortEarly\<close>, every failure
  is collected. Rules of the object itself run only when no key failed.
\<close>

datatype json =
    JString string
  | JNumber int
  | JBool bool
  | JNull
  | JArray "json list"
  | JObject "(string \<times> json) list"

type_synonym payload = "(string \<times> json) list"

datatype rule =
    MinLength nat
  | MaxLength nat
  | Pattern rx
  | Custom "string \<Rightarrow> string + string"

datatype presence = Required | Optional

record string_schema =
  only :: "string list option"
  rules :: "rule list"
  presence :: presence
  default_value :: "string option"
  messages :: "(string \<times> string) list"

record object_schema =
  keys :: "(string \<times> string_schema) list"
  min_keys :: "nat option"
  object_messages :: "(string \<times> string) list"

record options =
  abortEarly :: bool
  stripUnknown :: bool

record detail =
  field :: string
  message :: string

text \<open>\<open>secureString\<close>: the custom rule; \<open>Inl\<close> is \<open>helpers.error\<close> with its code.\<close>

definition secureString :: "string \<Rightarrow> string + string" where
  "secureString v =
     (let issues = securityCheck v in
      if length issues > 0 then Inl ''string.security'' else Inr v)"

text \<open>\<^verbatim>\<open>/^[a-zA-Z0-9\s\-_]+$/\<close>\<close>

definition category_char :: "char \<Rightarrow> bool" where
  "category_char c \<longleftrightarrow>
     is_lower c \<or> is_upper c \<or> is_digit c \<or> is_space c \<or> c = CHR ''-'' \<or> c = CHR ''_''"

definition category_rx :: rx where
  "category_rx = Seq Bol (Seq (one_or_more (Cls category_char)) Eol)"

definition createResourceSchema :: object_schema where
  "createResourceSchema = \<lparr>
     keys = [
       (''name'', \<lparr>only = None, rules = [MinLength 3, MaxLength 100, Custom secureString],
          presence = Required, default_value = None,
          messages = [
            (''string.min'', ''Name must be at least 3 characters long''),
            (''string.max'', ''Name must not exceed 100 characters''),
            (''any.required'', ''Name is required''),
            (''string.security'', ''Name contains potentially dangerous content'')]\<rparr>),
       (''description'', \<lparr>only = None, rules = [MinLength 10, MaxLength 500, Custom secureString],
          presence = Required, default_value = None,
          messages = [
            (''string.min'', ''Description must be at least 10 characters long''),
            (''string.max'', ''Description must not exceed 500 characters''),
            (''any.required'', ''Description is required''),
            (''string.security'', ''Description contains potentially dangerous content'')]\<rparr>),
       (''category'', \<lparr>only = None, rules = [MinLength 3, MaxLength 50, Pattern category_rx],
          presence = Required, default_value = None,
          messages = [
            (''string.min'', ''Category must be at least 3 characters long''),
            (''string.max'', ''Category must not exceed 50 characters''),
            (''string.pattern.base'',
             ''Category can only contain letters, numbers, spaces, hyphens and underscores''),
            (''any.required'', ''Category is required'')]\<rparr>),
       (''status'', \<lparr>only = Some [''active'', ''inactive'', ''archived''], rules = [],
          presence = Optional, default_value = Some ''active'',
          messages = [
            (''any.only'', ''Status must be one of: active, inactive, archived'')]\<rparr>)],
     min_keys = None,
     object_messages = []\<rparr>"

definition updateResourceSchema :: object_schema where
  "updateResourceSchema = \<lparr>
     keys = [
       (''name'', \<lparr>only = None, rules = [MinLength 3, MaxLength 100, Custom secureString],
          presence = Optional, default_value = None,
          messages = [
            (''string.min'', ''Name must be at least 3 characters long''),
            (''string.max'', ''Name must not exceed 100 characters''),
            (''string.security'', ''Name contains potentially dangerous content'')]\<rparr>),
       (''description'', \<lparr>only = None, rules = [MinLength 10, MaxLength 500, Custom secureString],
          presence = Optional, default_value = None,
          messages = [
            (''string.min'', ''Description must be at least 10 characters long''),
            (''string.max'', ''Description must not exceed 500 characters''),
            (''string.security'', ''Description contains potentially dangerous content'')]\<rparr>),
       (''category'', \<lparr>only = None, rules = [MinLength 3, MaxLength 50, Pattern category_rx],
          presence = Optional, default_value = None,
          messages = [
            (''string.min'', ''Category must be at least 3 characters long''),
            (''string.max'', ''Category must not exceed 50 characters''),
            (''string.pattern.base'',
             ''Category can only contain letters, numbers, spaces, hyphens and underscores'')]\<rparr>),
       (''status'', \<lparr>only = Some [''active'', ''inactive'', ''archived''], rules = [],
          presence = Optional, default_value = None,
          messages = [
            (''any.only'', ''Status must be one of: active, inactive, archived'')]\<rparr>)],
     min_keys = Some 1,
     object_messages = [(''object.min'', ''At least one field must be provided for update'')]\<rparr>"

text \<open>One rule on a string: \<open>Inl\<close> the error code, \<open>Inr\<close> the value passed on.\<close>

fun apply_rule :: "rule \<Rightarrow> string \<Rightarrow> string + string" where
  "apply_rule (MinLength n) v = (if length v \<ge> n then Inr v else Inl ''string.min'')"
| "apply_rule (MaxLength n) v = (if length v \<le> n then Inr v else Inl ''string.max'')"
| "apply_rule (Pattern r) v = (if regex_test False r v then Inr v else Inl ''string.pattern.base'')"
| "apply_rule (Custom method) v = method v"

fun run_rules :: "bool \<Rightarrow> rule list \<Rightarrow> string \<Rightarrow> string list \<times> string" where
  "run_rules ab [] v = ([], v)"
| "run_rules ab (r # rs) v =
     (case apply_rule r v of
        Inr v' \<Rightarrow> run_rules ab rs v'
      | Inl c \<Rightarrow>
          if ab then ([c], v)
          else (let (cs, v') = run_rules ab rs v in (c # cs, v')))"

text \<open>
  One key: the value found under it (\<open>None\<close> is \<open>undefined\<close>) gives the error codes and the
  value kept in the result.
\<close>

definition validate_string :: "bool \<Rightarrow> string_schema \<Rightarrow> json option \<Rightarrow> string list \<times> json option" where
  "validate_string ab sch item =
     (case item of
        None \<Rightarrow>
          (if presence sch = Required then ([''any.required''], None)
           else ([], map_option JString (default_value sch)))
      | Some j \<Rightarrow>
          (let allowed = (case only sch of None \<Rightarrow> [] | Some vs \<Rightarrow> map JString vs);
               e1 = (if only sch \<noteq> None then [''any.only''] else [])
           in if j \<in> set allowed then ([], Some j)
              else if ab \<and> e1 \<noteq> [] then (e1, Some j)
              else (case j of
                      JString s \<Rightarrow>
                        (if s = [] then (e1 @ [''string.empty''], Some j)
                         else (let (cs, s') = run_rules ab (rules sch) s
                               in (e1 @ cs, Some (JString s'))))
                    | _ \<Rightarrow> (e1 @ [''string.base''], Some j))))"

text \<open>
  The text of an error: the schema's own message for the code, else Joi's template with the
  label in double quotes. The schemas above give a message for every other code they can raise.
\<close>

definition quoted :: "string \<Rightarrow> string" where
  "quoted label = [CHR 0x22] @ label @ [CHR 0x22]"

definition default_message :: "string \<Rightarrow> string \<Rightarrow> string" where
  "default_message label c =
     (if c = ''string.base'' then quoted label @ '' must be a string''
      else if c = ''string.empty'' then quoted label @ '' is not allowed to be empty''
      else if c = ''any.required'' then quoted label @ '' is required''
      else if c = ''object.unknown'' then quoted label @ '' is not allowed''
      else quoted label @ '' failed '' @ c)"

definition message_for :: "(string \<times> string) list \<Rightarrow> string \<Rightarrow> string \<Rightarrow> string" where
  "message_for msgs label c =
     (case map_of msgs c of Some m \<Rightarrow> m | None \<Rightarrow> default_message label c)"

definition key_details :: "bool \<Rightarrow> string \<times> string_schema \<Rightarrow> payload \<Rightarrow> detail list" where
  "key_details ab ks body =
     map (\<lambda>c. \<lparr>field = fst ks, message = message_for (messages (snd ks)) (fst ks) c\<rparr>)
       (fst (validate_string ab (snd ks) (map_of body (fst ks))))"

definition key_value :: "bool \<Rightarrow> string \<times> string_schema \<Rightarrow> payload \<Rightarrow> payload" where
  "key_value ab ks body =
     (case snd (validate_string ab (snd ks) (map_of body (fst ks))) of
        None \<Rightarrow> []
      | Some j \<Rightarrow> [(fst ks, j)])"

text \<open>The loop over the schema's keys, in the order written.\<close>

fun validate_keys :: "bool \<Rightarrow> (string \<times> string_schema) list \<Rightarrow> payload \<Rightarrow> detail list \<times> payload" where
  "validate_keys ab [] body = ([], [])"
| "validate_keys ab (ks # rest) body =
     (let errs = key_details ab ks body in
      if ab \<and> errs \<noteq> [] then (errs, key_value ab ks body)
      else (let (errs', value') = validate_keys ab rest body
            in (errs @ errs', key_value ab ks body @ value')))"

definition unknown_keys :: "object_schema \<Rightarrow> payload \<Rightarrow> payload" where
  "unknown_keys sch body = filter (\<lambda>kv. fst kv \<notin> set (map fst (keys sch))) body"

definition joi_validate :: "options \<Rightarrow> object_schema \<Rightarrow> payload \<Rightarrow> detail list \<times> payload" where
  "joi_validate opts sch body =
     (let (errs, known) = validate_keys (abortEarly opts) (keys sch) body;
          unknown = unknown_keys sch body;
          errs_unknown =
            (if stripUnknown opts then []
             else map (\<lambda>kv. \<lparr>field = fst kv,
                              message = message_for (object_messages sch) (fst kv) ''object.unknown''\<rparr>)
                    unknown);
          value = (if stripUnknown opts then known else known @ unknown);
          errs1 = (if abortEarly opts then take 1 (errs @ errs_unknown) else errs @ errs_unknown)
      in if errs1 \<noteq> [] then (errs1, value)
         else (case min_keys sch of
                 None \<Rightarrow> ([], value)
               | Some n \<Rightarrow>
                   if length value \<ge> n then ([], value)
                   else ([\<lparr>field = [],
                           message = message_for (object_messages sch) ''value'' ''object.min''\<rparr>],
                         value)))"

text \<open>
  The middleware \<open>validate(schema)\<close>: \<open>Inl\<close> is the 400 response (the request ends there),
  \<open>Inr\<close> the normalised body handed to the next handler.
\<close>

record validation_failure =
  statusCode :: nat
  error :: string
  details :: "detail list"

definition validate :: "object_schema \<Rightarrow> payload \<Rightarrow> validation_failure + payload" where
  "validate sch body =
     (let (errs, value) = joi_validate \<lparr>abortEarly = False, stripUnknown = True\<rparr> sch body in
      if errs \<noteq> [] then Inl \<lparr>statusCode = 400, error = ''Validation failed'', details = errs\<rparr>
      else Inr value)"

section \<open>Data model (\<open>models/resource.model.ts\<close>)\<close>

datatype status = Active | Inactive | Archived

definition status_text :: "status \<Rightarrow> string" where
  "status_text s = (case s of Active \<Rightarrow> ''active'' | Inactive \<Rightarrow> ''inactive'' | Archived \<Rightarrow> ''archived'')"

definition status_of_text :: "string \<Rightarrow> status option" where
  "status_of_text t =
     (if t = ''active'' then Some Active
      else if t = ''inactive'' then Some Inactive
      else if t = ''archived'' then Some Archived
      else None)"

text \<open>
  A row of table \<open>resources\<close>. Timestamps (\<open>CURRENT_TIMESTAMP\<close>, one-second resolution) are
  seconds since the epoch.
\<close>

record resource =
  id' :: int
  name :: string
  description :: string
  category :: string
  status :: status
  created_at :: nat
  updated_at :: nat

record ResourceFilters =
  f_name :: "string option"
  f_category :: "string option"
  f_status :: "string option"
  f_created_at :: "string option"
  f_search :: "string option"

record CreateResourceDTO =
  c_name :: string
  c_description :: string
  c_category :: string
  c_status :: "status option"

record UpdateResourceDTO =
  u_name :: "string option"
  u_description :: "string option"
  u_category :: "string option"
  u_status :: "status option"

text \<open>A number that may be \<open>undefined\<close> or \<open>NaN\<close> (both \<open>None\<close>, both falsy).\<close>

record PaginationParams =
  p_page :: "int option"
  p_limit :: "int option"

record pagination_info =
  page :: int
  limit :: int
  total' :: int
  totalPages :: int
  hasNext :: bool
  hasPrev :: bool

record PaginatedResponse =
  data :: "resource list"
  pagination :: pagination_info

section \<open>The store (\<open>config/database.ts\<close>) and its statements\<close>

datatype column = Name | Description | Category | Status

datatype cond =
    Like column string
  | Equals column string
  | DateEquals string
  | Or cond cond

datatype assignment =
    SetName string
  | SetDescription string
  | SetCategory string
  | SetStatus status
  | SetUpdatedAtNow

datatype statement =
    Insert string string string status
  | SelectById int
  | SelectExists int
  | SelectCount "cond list"
  | SelectAll "cond list" "(int \<times> int) option"
  | Update "assignment list" int
  | Delete int

text \<open>
  The database: the rows of \<open>resources\<close> in rowid order, the \<open>AUTOINCREMENT\<close> counter (the
  largest id ever given), the clock read by \<open>CURRENT_TIMESTAMP\<close>, and the statements sent so
  far (a trace, read by no operation).
\<close>

record database =
  resources :: "resource list"
  sqlite_sequence :: int
  now :: nat
  journal :: "statement list"

text \<open>
  What the sources do not fix: \<open>DATE(?)\<close> of a bound text (\<open>None\<close> is \<open>NULL\<close>), as a day
  number.
\<close>

record engine =
  date_of_text :: "string \<Rightarrow> nat option"

text \<open>
  \<open>ORDER BY created_at DESC\<close>: the statement names no second key. SQLite reads the matching
  rows in rowid order (also through \<open>idx_category\<close> or \<open>idx_status\<close>, whose entries of one
  key are in rowid order) and its sorter keeps rows of equal key in the order read: a
  stable sort by \<open>created_at\<close>, descending.
\<close>

definition order_by_created_at_desc :: "resource list \<Rightarrow> resource list" where
  "order_by_created_at_desc rows = sort_key (\<lambda>r. - int (created_at r)) rows"

text \<open>
  Two orders on records: creation time never increasing; and "by creation time descending,
  then by id ascending".
\<close>

definition created_desc :: "resource \<Rightarrow> resource \<Rightarrow> bool" where
  "created_desc a b \<longleftrightarrow> created_at b \<le> created_at a"

definition by_creation_then_id :: "resource \<Rightarrow> resource \<Rightarrow> bool" where
  "by_creation_then_id a b \<longleftrightarrow>
     created_at b < created_at a \<or> (created_at a = created_at b \<and> id' a < id' b)"

text \<open>\<open>LIKE\<close>: \<open>%\<close> is any run of characters, \<open>_\<close> any one; ASCII letters match in either case.\<close>

fun sql_like :: "string \<Rightarrow> string \<Rightarrow> bool" where
  "sql_like [] s = (s = [])"
| "sql_like (p # ps) [] = (p = CHR ''%'' \<and> sql_like ps [])"
| "sql_like (p # ps) (c # cs) =
     (if p = CHR ''%'' then sql_like ps (c # cs) \<or> sql_like (p # ps) cs
      else (p = CHR ''_'' \<or> canonicalize p = canonicalize c) \<and> sql_like ps cs)"

definition column_text :: "column \<Rightarrow> resource \<Rightarrow> string" where
  "column_text col r =
     (case col of
        Name \<Rightarrow> name r
      | Description \<Rightarrow> description r
      | Category \<Rightarrow> category r
      | Status \<Rightarrow> status_text (status r))"

fun holds :: "engine \<Rightarrow> cond \<Rightarrow> resource \<Rightarrow> bool" where
  "holds e (Like col pat) r = sql_like pat (column_text col r)"
| "holds e (Equals col v) r = (column_text col r = v)"
| "holds e (DateEquals v) r = (date_of_text e v = Some (created_at r div 86400))"
| "holds e (Or a b) r = (holds e a r \<or> holds e b r)"

text \<open>\<open>WHERE 1=1 AND c1 AND ... AND cn\<close>\<close>

definition matches :: "engine \<Rightarrow> cond list \<Rightarrow> resource \<Rightarrow> bool" where
  "matches e conds r = list_all (\<lambda>c. holds e c r) conds"

text \<open>\<open>LIMIT l OFFSET o\<close>: a negative limit is no limit, a negative offset is 0.\<close>

definition sql_limit :: "int \<Rightarrow> int \<Rightarrow> resource list \<Rightarrow> resource list" where
  "sql_limit l off rows = (let rest = drop (nat off) rows in if l < 0 then rest else take (nat l) rest)"

definition log_statement :: "statement \<Rightarrow> database \<Rightarrow> database" where
  "log_statement st db = db\<lparr>journal := journal db @ [st]\<rparr>"

definition exec_count :: "engine \<Rightarrow> cond list \<Rightarrow> database \<Rightarrow> int \<times> database" where
  "exec_count e conds db =
     (int (length (filter (matches e conds) (resources db))), log_statement (SelectCount conds) db)"

text \<open>The answer to \<open>SELECT * FROM resources WHERE ... ORDER BY created_at DESC\<close>.\<close>

definition select_ordered :: "engine \<Rightarrow> cond list \<Rightarrow> database \<Rightarrow> resource list" where
  "select_ordered e conds db = order_by_created_at_desc (filter (matches e conds) (resources db))"

definition exec_select :: "engine \<Rightarrow> cond list \<Rightarrow> database \<Rightarrow> resource list \<times> database" where
  "exec_select e conds db = (select_ordered e conds db, log_statement (SelectAll conds None) db)"

text \<open>
  \<open>... LIMIT ? OFFSET ?\<close> with two bound numbers. The driver binds a number as a 32-bit
  integer when it is one and as a double otherwise; where the statement needs an integer,
  SQLite takes a double that is a whole number strictly between \<open>-2^63\<close> and \<open>2^63\<close>, and
  fails with \<open>SqliteError\<close> (datatype mismatch) on any other.
\<close>

datatype store_error = SqliteError

definition bindable :: "int \<Rightarrow> bool" where
  "bindable n \<longleftrightarrow> - (2 ^ 63) < n \<and> n < 2 ^ 63"

definition exec_select_page ::
  "engine \<Rightarrow> cond list \<Rightarrow> int \<Rightarrow> int \<Rightarrow> database \<Rightarrow> (store_error + resource list) \<times> database" where
  "exec_select_page e conds l off db =
     ((if bindable l \<and> bindable off then Inr (sql_limit l off (select_ordered e conds db))
       else Inl SqliteError),
      log_statement (SelectAll conds (Some (l, off))) db)"

definition exec_insert :: "string \<Rightarrow> string \<Rightarrow> string \<Rightarrow> status \<Rightarrow> database \<Rightarrow> int \<times> database" where
  "exec_insert n d c s db =
     (let rowid = sqlite_sequence db + 1;
          row = \<lparr>id' = rowid, name = n, description = d, category = c, status = s,
                 created_at = now db, updated_at = now db\<rparr>
      in (rowid, log_statement (Insert n d c s)
                   (db\<lparr>resources := resources db @ [row], sqlite_sequence := rowid\<rparr>)))"

fun assign :: "nat \<Rightarrow> resource \<Rightarrow> assignment \<Rightarrow> resource" where
  "assign t r (SetName v) = r\<lparr>name := v\<rparr>"
| "assign t r (SetDescription v) = r\<lparr>description := v\<rparr>"
| "assign t r (SetCategory v) = r\<lparr>category := v\<rparr>"
| "assign t r (SetStatus v) = r\<lparr>status := v\<rparr>"
| "assign t r SetUpdatedAtNow = r\<lparr>updated_at := t\<rparr>"

definition exec_update :: "assignment list \<Rightarrow> int \<Rightarrow> database \<Rightarrow> database" where
  "exec_update assignments i db =
     log_statement (Update assignments i)
       (db\<lparr>resources := map (\<lambda>r. if id' r = i then foldl (assign (now db)) r assignments else r)
                            (resources db)\<rparr>)"

text \<open>\<open>DELETE FROM resources WHERE id = ?\<close>, with \<open>result.changes\<close>.\<close>

definition exec_delete :: "int \<Rightarrow> database \<Rightarrow> nat \<times> database" where
  "exec_delete i db =
     (length (filter (\<lambda>r. id' r = i) (resources db)),
      log_statement (Delete i) (db\<lparr>resources := filter (\<lambda>r. id' r \<noteq> i) (resources db)\<rparr>))"

section \<open>Resource store access (\<open>services/resource.service.ts\<close>)\<close>

definition ResourceService_getById :: "int \<Rightarrow> database \<Rightarrow> resource option \<times> database" where
  "ResourceService_getById i db =
     (find (\<lambda>r. id' r = i) (resources db), log_statement (SelectById i) db)"

definition ResourceService_create :: "CreateResourceDTO \<Rightarrow> database \<Rightarrow> resource option \<times> database" where
  "ResourceService_create dto db =
     (let st = (case c_status dto of None \<Rightarrow> Active | Some s \<Rightarrow> s);
          (lastInsertRowid, db1) = exec_insert (c_name dto) (c_description dto) (c_category dto) st db
      in ResourceService_getById lastInsertRowid db1)"

text \<open>\<open>if (filters?.x)\<close>: the condition is added for a string that is defined and not empty.\<close>

definition when_truthy :: "string option \<Rightarrow> (string \<Rightarrow> cond) \<Rightarrow> cond list" where
  "when_truthy v mk = (case v of None \<Rightarrow> [] | Some s \<Rightarrow> if s = [] then [] else [mk s])"

definition whereClause :: "ResourceFilters option \<Rightarrow> cond list" where
  "whereClause filters =
     (case filters of
        None \<Rightarrow> []
      | Some f \<Rightarrow>
          when_truthy (f_name f) (\<lambda>v. Like Name (''%'' @ v @ ''%'')) @
          when_truthy (f_category f) (\<lambda>v. Equals Category v) @
          when_truthy (f_status f) (\<lambda>v. Equals Status v) @
          when_truthy (f_created_at f) (\<lambda>v. DateEquals v) @
          when_truthy (f_search f)
            (\<lambda>v. Or (Like Name (''%'' @ v @ ''%'')) (Like Description (''%'' @ v @ ''%''))))"

text \<open>\<open>x || d\<close> on a number: \<open>undefined\<close>, \<open>NaN\<close> and 0 give the default.\<close>

definition or_default :: "int option \<Rightarrow> int \<Rightarrow> int" where
  "or_default x d = (case x of None \<Rightarrow> d | Some n \<Rightarrow> if n = 0 then d else n)"

text \<open>
  The numbers of the source are doubles. A whole number is kept as an \<open>int\<close>; the result of
  an operation is rounded to the nearest double, ties to the even significand: a number of
  at most 53 binary digits is exact, a longer one keeps its 53 leading digits. (Beyond the
  largest double, about \<open>1.8 * 10^308\<close>, the source has \<open>Infinity\<close>; the store refuses it
  like every number from \<open>2^63\<close> on.)
\<close>

function bit_length :: "int \<Rightarrow> nat" where
  "bit_length n = (if n \<le> 0 then 0 else Suc (bit_length (n div 2)))"
  by pat_completeness auto
termination by (relation "measure nat") auto

declare bit_length.simps [simp del]

definition round_half_even :: "int \<Rightarrow> int \<Rightarrow> int" where
  "round_half_even n d =
     (let q = n div d; r = n mod d
      in if 2 * r < d \<or> (2 * r = d \<and> even q) then q else q + 1)"

definition to_double :: "int \<Rightarrow> int" where
  "to_double n =
     (let e = bit_length \<bar>n\<bar> - 53
      in if e = 0 then n else sgn n * (round_half_even \<bar>n\<bar> (2 ^ e) * 2 ^ e))"

text \<open>\<open>Math.ceil(total / limit)\<close>, over the reals.\<close>

definition ceil_div :: "int \<Rightarrow> int \<Rightarrow> int" where
  "ceil_div a b = \<lceil>real_of_int a / real_of_int b\<rceil>"

text \<open>
  \<open>getAll(filters, pagination)\<close>: the count statement, then the data statement; an error of
  the store is thrown to the caller.
\<close>

definition ResourceService_getAll ::
  "engine \<Rightarrow> ResourceFilters option \<Rightarrow> PaginationParams option \<Rightarrow> database
     \<Rightarrow> (store_error + PaginatedResponse) \<times> database" where
  "ResourceService_getAll e filters pgn db =
     (let pg = or_default (case pgn of None \<Rightarrow> None | Some p \<Rightarrow> p_page p) 1;
          lmt = or_default (case pgn of None \<Rightarrow> None | Some p \<Rightarrow> p_limit p) 10;
          offset = to_double (to_double (pg - 1) * lmt);
          conds = whereClause filters;
          (tot, db1) = exec_count e conds db;
          (answer, db2) = exec_select_page e conds lmt offset db1;
          pages = ceil_div tot lmt
      in (case answer of
            Inl err \<Rightarrow> Inl err
          | Inr rows \<Rightarrow>
              Inr \<lparr>data = rows,
                   pagination = \<lparr>page = pg, limit = lmt, total' = tot, totalPages = pages,
                                  hasNext = (pg < pages), hasPrev = (pg > 1)\<rparr>\<rparr>,
          db2))"

text \<open>The variant without pagination: \<open>SELECT * ... ORDER BY created_at DESC\<close>.\<close>

definition ResourceService_getAll_simple ::
  "engine \<Rightarrow> ResourceFilters option \<Rightarrow> database \<Rightarrow> resource list \<times> database" where
  "ResourceService_getAll_simple e filters db = exec_select e (whereClause filters) db"

definition update_fields :: "UpdateResourceDTO \<Rightarrow> assignment list" where
  "update_fields dto =
     (case u_name dto of None \<Rightarrow> [] | Some v \<Rightarrow> [SetName v]) @
     (case u_description dto of None \<Rightarrow> [] | Some v \<Rightarrow> [SetDescription v]) @
     (case u_category dto of None \<Rightarrow> [] | Some v \<Rightarrow> [SetCategory v]) @
     (case u_status dto of None \<Rightarrow> [] | Some v \<Rightarrow> [SetStatus v])"

definition ResourceService_update :: "int \<Rightarrow> UpdateResourceDTO \<Rightarrow> database \<Rightarrow> resource option \<times> database" where
  "ResourceService_update i dto db =
     (let (existing, db1) = ResourceService_getById i db in
      case existing of
        None \<Rightarrow> (None, db1)
      | Some e \<Rightarrow>
          (let assignments = update_fields dto in
           if length assignments = 0 then (Some e, db1)
           else ResourceService_getById i (exec_update (assignments @ [SetUpdatedAtNow]) i db1)))"

definition ResourceService_delete :: "int \<Rightarrow> database \<Rightarrow> bool \<times> database" where
  "ResourceService_delete i db = (let (changes, db1) = exec_delete i db in (changes > 0, db1))"

definition ResourceService_exists :: "int \<Rightarrow> database \<Rightarrow> bool \<times> database" where
  "ResourceService_exists i db =
     (find (\<lambda>r. id' r = i) (resources db) \<noteq> None, log_statement (SelectExists i) db)"

section \<open>Request handlers (\<open>controllers/resource.controller.ts\<close>, \<open>routes/resource.routes.ts\<close>)\<close>

text \<open>
  \<open>parseInt(string, radix)\<close>, radix 0 standing for an omitted radix: leading white space is
  skipped, a sign is read, \<open>0x\<close> selects radix 16 when the radix is omitted or 16, and the
  longest run of digits of the radix is the value; no digit at all is \<open>NaN\<close> (\<open>None\<close>).
  Values are exact integers (the source's doubles round beyond \<open>2^53\<close>).
\<close>

definition digit_value :: "char \<Rightarrow> nat option" where
  "digit_value c =
     (if is_digit c then Some (code c - 48)
      else if is_lower c then Some (code c - 87)
      else if is_upper c then Some (code c - 55)
      else None)"

fun digits_of :: "nat \<Rightarrow> string \<Rightarrow> nat list" where
  "digits_of R [] = []"
| "digits_of R (c # cs) =
     (case digit_value c of
        None \<Rightarrow> []
      | Some d \<Rightarrow> if d < R then d # digits_of R cs else [])"

definition has_hex_prefix :: "string \<Rightarrow> bool" where
  "has_hex_prefix s = (take 2 s = ''0x'' \<or> take 2 s = ''0X'')"

definition parseInt :: "string \<Rightarrow> nat \<Rightarrow> int option" where
  "parseInt input radix =
     (let s1 = dropWhile is_space input;
          negative = (take 1 s1 = ''-'');
          s2 = (if take 1 s1 = ''-'' \<or> take 1 s1 = ''+'' then drop 1 s1 else s1);
          strip = ((radix = 0 \<or> radix = 16) \<and> has_hex_prefix s2);
          R = (if strip then 16 else if radix = 0 then 10 else radix);
          s3 = (if strip then drop 2 s2 else s2);
          ds = digits_of R s3;
          n = foldl (\<lambda>acc d. acc * int R + int d) 0 ds
      in if radix \<noteq> 0 \<and> (radix < 2 \<or> radix > 36) then None
         else if ds = [] then None
         else Some (if negative then - n else n))"

text \<open>
  What a handler does with a request: it answers (\<open>res.status(code).json(body)\<close>) or hands an
  error to \<open>next\<close>. \<open>AppError\<close> carries a status code and a message.
\<close>

datatype app_error = AppError nat string | OtherError

datatype body =
    ResourceBody "resource option"
  | MessageBody string

datatype outcome = Json nat body | Next app_error

definition ResourceController_create :: "CreateResourceDTO \<Rightarrow> database \<Rightarrow> outcome \<times> database" where
  "ResourceController_create dto db =
     (let (resource, db1) = ResourceService_create dto db in (Json 201 (ResourceBody resource), db1))"

definition ResourceController_getById :: "string \<Rightarrow> database \<Rightarrow> outcome \<times> database" where
  "ResourceController_getById id_param db =
     (case parseInt id_param 0 of
        None \<Rightarrow> (Next (AppError 400 ''Invalid resource ID''), db)
      | Some i \<Rightarrow>
          (let (resource, db1) = ResourceService_getById i db in
           case resource of
             None \<Rightarrow> (Next (AppError 404 ''Resource not found''), db1)
           | Some r \<Rightarrow> (Json 200 (ResourceBody (Some r)), db1)))"

definition ResourceController_update :: "string \<Rightarrow> UpdateResourceDTO \<Rightarrow> database \<Rightarrow> outcome \<times> database" where
  "ResourceController_update id_param dto db =
     (case parseInt id_param 0 of
        None \<Rightarrow> (Next (AppError 400 ''Invalid resource ID''), db)
      | Some i \<Rightarrow>
          (let (resource, db1) = ResourceService_update i dto db in
           case resource of
             None \<Rightarrow> (Next (AppError 404 ''Resource not found''), db1)
           | Some r \<Rightarrow> (Json 200 (ResourceBody (Some r)), db1)))"

definition ResourceController_delete :: "string \<Rightarrow> database \<Rightarrow> outcome \<times> database" where
  "ResourceController_delete id_param db =
     (case parseInt id_param 0 of
        None \<Rightarrow> (Next (AppError 400 ''Invalid resource ID''), db)
      | Some i \<Rightarrow>
          (let (deleted, db1) = ResourceService_delete i db in
           if \<not> deleted then (Next (AppError 404 ''Resource not found''), db1)
           else (Json 200 (MessageBody ''Resource deleted successfully''), db1)))"

text \<open>
  \<open>const data: CreateResourceDTO = req.body\<close>: the body is read by key. A body without the
  typed fields makes the statement's binding fail, which \<open>catch\<close> hands to \<open>next\<close>.
\<close>

definition text_of :: "payload \<Rightarrow> string \<Rightarrow> string option" where
  "text_of body k = (case map_of body k of Some (JString s) \<Rightarrow> Some s | _ \<Rightarrow> None)"

definition status_in :: "payload \<Rightarrow> status option" where
  "status_in body = (case text_of body ''status'' of None \<Rightarrow> None | Some t \<Rightarrow> status_of_text t)"

definition as_CreateResourceDTO :: "payload \<Rightarrow> CreateResourceDTO option" where
  "as_CreateResourceDTO body =
     (case (text_of body ''name'', text_of body ''description'', text_of body ''category'') of
        (Some n, Some d, Some c) \<Rightarrow>
          Some \<lparr>c_name = n, c_description = d, c_category = c, c_status = status_in body\<rparr>
      | _ \<Rightarrow> None)"

definition as_UpdateResourceDTO :: "payload \<Rightarrow> UpdateResourceDTO" where
  "as_UpdateResourceDTO body =
     \<lparr>u_name = text_of body ''name'', u_description = text_of body ''description'',
      u_category = text_of body ''category'', u_status = status_in body\<rparr>"

datatype reply = Rejected validation_failure | Handled outcome

text \<open>\<open>router.post('/', validate(createResourceSchema), ResourceController.create)\<close>\<close>

definition route_post :: "payload \<Rightarrow> database \<Rightarrow> reply \<times> database" where
  "route_post req_body db =
     (case validate createResourceSchema req_body of
        Inl failure \<Rightarrow> (Rejected failure, db)
      | Inr v \<Rightarrow>
          (case as_CreateResourceDTO v of
             None \<Rightarrow> (Handled (Next OtherError), db)
           | Some dto \<Rightarrow>
               (let (out, db1) = ResourceController_create dto db in (Handled out, db1))))"

text \<open>\<open>router.put('/:id', validate(updateResourceSchema), ResourceController.update)\<close>\<close>

definition route_put :: "string \<Rightarrow> payload \<Rightarrow> database \<Rightarrow> reply \<times> database" where
  "route_put id_param req_body db =
     (case validate updateResourceSchema req_body of
        Inl failure \<Rightarrow> (Rejected failure, db)
      | Inr v \<Rightarrow>
          (let (out, db1) = ResourceController_update id_param (as_UpdateResourceDTO v) db
           in (Handled out, db1)))"




section \<open>Histories of the store\<close>

text \<open>
  The store changes through the service's create, update and delete; between two operations
  the clock may come to show any time (time passes, or the clock is set).
\<close>

datatype operation =
    OpCreate CreateResourceDTO
  | OpUpdate int UpdateResourceDTO
  | OpDelete int
  | OpClock nat

fun step :: "database \<Rightarrow> operation \<Rightarrow> database" where
  "step db (OpCreate dto) = snd (ResourceService_create dto db)"
| "step db (OpUpdate i dto) = snd (ResourceService_update i dto db)"
| "step db (OpDelete i) = snd (ResourceService_delete i db)"
| "step db (OpClock t) = db\<lparr>now := t\<rparr>"

definition run :: "operation list \<Rightarrow> database \<Rightarrow> database" where
  "run ops db = foldl step db ops"

definition empty_database :: "nat \<Rightarrow> database" where
  "empty_database t0 = \<lparr>resources = [], sqlite_sequence = 0, now = t0, journal = []\<rparr>"

text \<open>A history in which the clock, showing \<open>t\<close> at the start, is never set back.\<close>

fun clock_never_set_back :: "nat \<Rightarrow> operation list \<Rightarrow> bool" where
  "clock_never_set_back t [] = True"
| "clock_never_set_back t (OpClock t' # ops) = (t \<le> t' \<and> clock_never_set_back t' ops)"
| "clock_never_set_back t (OpCreate dto # ops) = clock_never_set_back t ops"
| "clock_never_set_back t (OpUpdate i dto # ops) = clock_never_set_back t ops"
| "clock_never_set_back t (OpDelete i # ops) = clock_never_set_back t ops"

section \<open>Rate limiter (\<open>server.ts\<close>)\<close>

text \<open>The configuration given to \<open>rateLimit\<close> in \<open>server.ts\<close>.\<close>

record limiter_options =
  windowMs :: nat
  max_requests :: nat

definition limiter :: limiter_options where
  "limiter = \<lparr>windowMs = 15 * 60 * 1000, max_requests = 100\<rparr>"

record counter =
  hits :: nat
  expiry :: nat

type_synonym 'k counters = "'k \<Rightarrow> counter option"

text \<open>
  Modelled from the spec: the limiter's algorithm is that of package \<open>express-rate-limit\<close>,
  which is not among the sources; they hold its configuration and mount it before the
  resource routes. Following section 4.5 of the specification: a fixed window, a counter per
  client identity, created at the first request of a window with an expiry one window length
  later, incremented by each further request; a request is rejected once the counter exceeds
  the cap; an expired counter is treated as absent. Times are in milliseconds.
\<close>

definition live_counter :: "'k counters \<Rightarrow> 'k \<Rightarrow> nat \<Rightarrow> counter option" where
  "live_counter cs k t =
     (case cs k of None \<Rightarrow> None | Some c \<Rightarrow> if t < expiry c then Some c else None)"

definition rate_limit :: "limiter_options \<Rightarrow> 'k \<Rightarrow> nat \<Rightarrow> 'k counters \<Rightarrow> bool \<times> 'k counters" where
  "rate_limit opts k t cs =
     (let c = (case live_counter cs k t of
                 None \<Rightarrow> \<lparr>hits = 1, expiry = t + windowMs opts\<rparr>
               | Some c0 \<Rightarrow> c0\<lparr>hits := hits c0 + 1\<rparr>)
      in (hits c \<le> max_requests opts, cs(k \<mapsto> c)))"

text \<open>A sequence of requests (client, time), served in order: the verdicts and the counters.\<close>

fun serve :: "limiter_options \<Rightarrow> ('k \<times> nat) list \<Rightarrow> 'k counters \<Rightarrow> bool list \<times> 'k counters" where
  "serve opts [] cs = ([], cs)"
| "serve opts ((k, t) # reqs) cs =
     (let (ok, cs1) = rate_limit opts k t cs;
          (oks, cs2) = serve opts reqs cs1
      in (ok # oks, cs2))"

text \<open>The verdicts given to one client, in order.\<close>

definition verdicts_of :: "'k \<Rightarrow> ('k \<times> nat) list \<Rightarrow> bool list \<Rightarrow> bool list" where
  "verdicts_of k reqs oks = map snd (filter (\<lambda>ro. fst (fst ro) = k) (zip reqs oks))"

section \<open>Data for concrete runs\<close>

text \<open>An engine that reads no text as a date.\<close>

definition plain_engine :: engine where
  "plain_engine = \<lparr>date_of_text = (\<lambda>_. None)\<rparr>"

definition sample_dto :: CreateResourceDTO where
  "sample_dto = \<lparr>c_name = ''Web API'', c_description = ''RESTful API service'',
     c_category = ''technology'', c_status = None\<rparr>"

definition mobile_dto :: CreateResourceDTO where
  "mobile_dto = \<lparr>c_name = ''Mobile App'', c_description = ''iOS application'',
     c_category = ''mobile'', c_status = None\<rparr>"

definition rename_dto :: UpdateResourceDTO where
  "rename_dto = \<lparr>u_name = Some ''Web API v2'', u_description = None, u_category = None,
     u_status = None\<rparr>"

text \<open>One record, created at second 0.\<close>

definition one_row :: database where
  "one_row = run [OpCreate sample_dto] (empty_database 0)"

text \<open>
  Four records: two of category technology created in second 0, then one of category mobile
  and one of category technology created in second 7.
\<close>

definition mixed_rows :: database where
  "mixed_rows =
     run [OpCreate sample_dto, OpCreate sample_dto, OpClock 7, OpCreate mobile_dto,
          OpCreate sample_dto] (empty_database 0)"


definition technology_active :: ResourceFilters where
  "technology_active = \<lparr>f_name = None, f_category = Some ''technology'',
     f_status = Some ''active'', f_created_at = None, f_search = None\<rparr>"


text \<open>A record is created at second 5, the clock is set back to 3, the record is renamed.\<close>

definition clock_set_back :: "operation list" where
  "clock_set_back = [OpCreate sample_dto, OpClock 3, OpUpdate 1 rename_dto]"

section \<open>Properties\<close>

subsection \<open>Matching and validation lemmas\<close>

lemma search_inside:
  assumes "\<And>prev. ms ci r (prev, x @ suf) \<noteq> []"
  shows "search ci r p (pre @ x @ suf)"
proof (induction pre arbitrary: p)
  case Nil
  show ?case using assms[of p] by (cases "x @ suf") auto
next
  case (Cons a pre)
  then show ?case by simp
qed

lemma regex_test_inside:
  "(\<And>prev. ms ci r (prev, x @ suf) \<noteq> []) \<Longrightarrow> regex_test ci r (pre @ x @ suf)"
  unfolding regex_test_def by (rule search_inside)

lemma chr_eq_refl: "chr_eq ci c c"
  by (simp add: chr_eq_def)

lemma ms_lit:
  "l \<noteq> [] \<Longrightarrow> (Some (last l), suf) \<in> set (ms ci (lit l) (prev, l @ suf))"
proof (induction l arbitrary: prev rule: lit.induct)
  case 1
  then show ?case by simp
next
  case (2 c)
  then show ?case by (simp add: chr_eq_refl)
next
  case (3 c v va)
  have "(Some (last (v # va)), suf) \<in> set (ms ci (lit (v # va)) (Some c, (v # va) @ suf))"
    using 3 by simp
  then show ?case by (simp add: chr_eq_refl)
qed

lemma ms_alts: "r \<in> set rs \<Longrightarrow> q \<in> set (ms ci r p) \<Longrightarrow> q \<in> set (ms ci (alts rs) p)"
  by (induction rs rule: alts.induct) auto

lemma quote_flagged:
  assumes "c \<in> {CHR 0x27, CHR 0x22, CHR '';'', CHR 0x5C}"
  shows "regex_test False sql_quote_rx (pre @ [c] @ suf)"
proof (rule regex_test_inside)
  fix prev
  have "(Some c, suf) \<in> set (ms False (Chr c) (prev, [c] @ suf))"
    by (simp add: chr_eq_refl)
  moreover have "Chr c \<in> set [Chr (CHR 0x27), Chr (CHR 0x22), Chr CHR '';'', Chr (CHR 0x5C)]"
    using assms by auto
  ultimately have "(Some c, suf) \<in> set (ms False sql_quote_rx (prev, [c] @ suf))"
    unfolding sql_quote_rx_def by (rule ms_alts[rotated])
  then show "ms False sql_quote_rx (prev, [c] @ suf) \<noteq> []" by auto
qed

lemma comment_flagged:
  assumes "t \<in> {''--'', ''#'', ''/*'', ''*/''}"
  shows "regex_test False sql_comment_rx (pre @ t @ suf)"
proof (rule regex_test_inside)
  fix prev
  have ne: "t \<noteq> []" using assms by auto
  have "(Some (last t), suf) \<in> set (ms False (lit t) (prev, t @ suf))"
    by (rule ms_lit[OF ne])
  moreover have "lit t \<in> set [lit ''--'', lit ''#'', lit ''/*'', lit ''*/'']"
    using assms by auto
  ultimately have "(Some (last t), suf) \<in> set (ms False sql_comment_rx (prev, t @ suf))"
    unfolding sql_comment_rx_def by (rule ms_alts[rotated])
  then show "ms False sql_comment_rx (prev, t @ suf) \<noteq> []" by auto
qed

lemma securityCheck_quote:
  "c \<in> {CHR 0x27, CHR 0x22, CHR '';'', CHR 0x5C} \<Longrightarrow> securityCheck (pre @ [c] @ suf) \<noteq> []"
  using quote_flagged[of c pre suf]
  by (simp add: securityCheck_def containsSQLInjection_def sqlPatterns_def)

lemma securityCheck_comment:
  "t \<in> {''--'', ''#'', ''/*'', ''*/''} \<Longrightarrow> securityCheck (pre @ t @ suf) \<noteq> []"
  using comment_flagged[of t pre suf]
  by (simp add: securityCheck_def containsSQLInjection_def sqlPatterns_def)

lemma validate_keys_all:
  "validate_keys False ks body =
     (concat (map (\<lambda>k. key_details False k body) ks), concat (map (\<lambda>k. key_value False k body) ks))"
  by (induction ks) (auto split: prod.splits)

lemma validate_unfold:
  "validate sch body =
     (let errs = concat (map (\<lambda>k. key_details False k body) (keys sch));
          value = concat (map (\<lambda>k. key_value False k body) (keys sch))
      in if errs \<noteq> [] then Inl \<lparr>statusCode = 400, error = ''Validation failed'', details = errs\<rparr>
         else (case min_keys sch of
                 None \<Rightarrow> Inr value
               | Some n \<Rightarrow>
                   if length value \<ge> n then Inr value
                   else Inl \<lparr>statusCode = 400, error = ''Validation failed'',
                          details = [\<lparr>field = [],
                            message = message_for (object_messages sch) ''value'' ''object.min''\<rparr>]\<rparr>))"
  by (simp add: validate_def joi_validate_def validate_keys_all Let_def split: option.splits)


lemma ms_Seq_I: "q \<in> set (ms ci a p) \<Longrightarrow> s \<in> set (ms ci b q) \<Longrightarrow> s \<in> set (ms ci (Seq a b) p)"
  by auto

lemma iter_self: "p \<in> set (iter f n p)"
  by (cases n) auto

lemma ms_Star_zero: "p \<in> set (ms ci (Star a) p)"
  by (simp add: iter_self)

lemma iter_run:
  assumes g: "\<And>p a xs. f a \<Longrightarrow> g (p, a # xs) = [(Some a, xs)]"
  shows "length x \<le> n \<Longrightarrow> list_all f x \<Longrightarrow>
     (if x = [] then prev else Some (last x), suf) \<in> set (iter g n (prev, x @ suf))"
proof (induction x arbitrary: n prev)
  case Nil
  then show ?case by (simp add: iter_self)
next
  case (Cons a x)
  then obtain m where n: "n = Suc m" and m: "length x \<le> m" by (cases n) auto
  have fa: "f a" and fx: "list_all f x" using Cons.prems by auto
  have "(if x = [] then Some a else Some (last x), suf) \<in> set (iter g m (Some a, x @ suf))"
    by (rule Cons.IH[OF m fx])
  then show ?case using g[OF fa] by (auto simp: n)
qed

lemma ms_Star_Cls:
  assumes "list_all f x" and "x \<noteq> []"
  shows "(Some (last x), suf) \<in> set (ms ci (Star (Cls f)) (prev, x @ suf))"
proof -
  have "(if x = [] then prev else Some (last x), suf)
          \<in> set (iter (ms ci (Cls f)) (length (x @ suf)) (prev, x @ suf))"
    by (rule iter_run) (use assms in simp_all)
  then show ?thesis using assms by simp
qed

lemma script_matches:
  "ms True xss_script_rx (prev, ''<script>alert(1)</script>'' @ suf) \<noteq> []"
proof -
  let ?p1 = "(Some CHR ''t'', ''>alert(1)'' @ ''</script>'' @ suf)"
  let ?p2 = "(Some CHR '')'', ''</script>'' @ suf)"
  let ?p3 = "(Some CHR ''>'', suf)"
  have s1: "?p1 \<in> set (ms True (lit ''<script'') (prev, ''<script'' @ ''>alert(1)'' @ ''</script>'' @ suf))"
    using ms_lit[of "''<script''" "''>alert(1)'' @ ''</script>'' @ suf" True prev] by simp
  have s2: "?p1 \<in> set (ms True WordB ?p1)"
    by (simp add: word_before_def word_after_def is_word_def is_upper_def is_lower_def
        is_digit_def code_def)
  have s3: "?p2 \<in> set (ms True (Star (Cls not_lt)) ?p1)"
    using ms_Star_Cls[of not_lt "''>alert(1)''" "''</script>'' @ suf" True "Some CHR ''t''"]
    by (simp add: not_lt_def)
  have s4: "?p2 \<in> set (ms True (Star (Seq (NotAhead (lit ''</script>''))
              (Seq (Chr CHR ''<'') (Star (Cls not_lt))))) ?p2)"
    by (rule ms_Star_zero)
  have s5: "?p3 \<in> set (ms True (lit ''</script>'') ?p2)"
    using ms_lit[of "''</script>''" suf True "Some CHR '')''"] by simp
  have "?p3 \<in> set (ms True xss_script_rx (prev, ''<script'' @ ''>alert(1)'' @ ''</script>'' @ suf))"
    unfolding xss_script_rx_def
    by (rule ms_Seq_I[OF s1 ms_Seq_I[OF s2 ms_Seq_I[OF s3 ms_Seq_I[OF s4 s5]]]])
  then show ?thesis by auto
qed

lemma containsXSS_script: "containsXSS (pre @ ''<script>alert(1)</script>'' @ suf)"
  using regex_test_inside[of True xss_script_rx "''<script>alert(1)</script>''" suf pre, OF script_matches]
  by (simp add: containsXSS_def xssPatterns_def)

lemma securityCheck_empty: "securityCheck [] = []"
  by code_simp

lemma security_code:
  assumes "securityCheck s \<noteq> []"
  shows "''string.security'' \<in> set (fst (validate_string False
           \<lparr>only = None, rules = [MinLength a, MaxLength b, Custom secureString], presence = pr,
            default_value = dv, messages = msgs\<rparr> (Some (JString s))))"
proof -
  have "s \<noteq> []" using assms securityCheck_empty by auto
  moreover have "secureString s = Inl ''string.security''"
    using assms by (simp add: secureString_def)
  ultimately show ?thesis
    by (simp add: validate_string_def Let_def split: prod.splits)
qed

lemma validate_reports:
  assumes "ks \<in> set (keys sch)" and "d \<in> set (key_details False ks body)"
  shows "\<exists>f. validate sch body = Inl f \<and> statusCode f = 400 \<and> d \<in> set (details f)"
proof -
  have "d \<in> set (concat (map (\<lambda>k. key_details False k body) (keys sch)))"
    using assms by auto
  then show ?thesis
    unfolding validate_unfold Let_def by (auto split: if_splits)
qed


lemma secure_name_rejected:
  assumes "securityCheck s \<noteq> []"
    and "sch = createResourceSchema \<or> sch = updateResourceSchema"
    and "map_of body ''name'' = Some (JString s)"
  shows "\<exists>f. validate sch body = Inl f \<and> statusCode f = 400 \<and>
           \<lparr>field = ''name'', message = ''Name contains potentially dangerous content''\<rparr> \<in> set (details f)"
proof -
  obtain ks where ks: "ks \<in> set (keys sch)" "fst ks = ''name''"
    "\<exists>pr dv msgs. snd ks = \<lparr>only = None, rules = [MinLength 3, MaxLength 100, Custom secureString],
        presence = pr, default_value = dv, messages = msgs\<rparr>"
    "map_of (messages (snd ks)) ''string.security'' = Some ''Name contains potentially dangerous content''"
    using assms(2) by (auto simp: createResourceSchema_def updateResourceSchema_def)
  have "''string.security'' \<in> set (fst (validate_string False (snd ks) (Some (JString s))))"
    using ks(3) security_code[OF assms(1)] by auto
  then have "\<lparr>field = ''name'', message = ''Name contains potentially dangerous content''\<rparr>
      \<in> set (key_details False ks body)"
    using ks(2,4) assms(3) by (force simp: key_details_def message_for_def)
  from validate_reports[OF ks(1) this] show ?thesis .
qed

lemma secure_description_rejected:
  assumes "securityCheck s \<noteq> []"
    and "sch = createResourceSchema \<or> sch = updateResourceSchema"
    and "map_of body ''description'' = Some (JString s)"
  shows "\<exists>f. validate sch body = Inl f \<and> statusCode f = 400 \<and>
           \<lparr>field = ''description'', message = ''Description contains potentially dangerous content''\<rparr>
             \<in> set (details f)"
proof -
  obtain ks where ks: "ks \<in> set (keys sch)" "fst ks = ''description''"
    "\<exists>pr dv msgs. snd ks = \<lparr>only = None, rules = [MinLength 10, MaxLength 500, Custom secureString],
        presence = pr, default_value = dv, messages = msgs\<rparr>"
    "map_of (messages (snd ks)) ''string.security''
       = Some ''Description contains potentially dangerous content''"
    using assms(2) by (auto simp: createResourceSchema_def updateResourceSchema_def)
  have "''string.security'' \<in> set (fst (validate_string False (snd ks) (Some (JString s))))"
    using ks(3) security_code[OF assms(1)] by auto
  then have "\<lparr>field = ''description'',
       message = ''Description contains potentially dangerous content''\<rparr>
      \<in> set (key_details False ks body)"
    using ks(2,4) assms(3) by (force simp: key_details_def message_for_def)
  from validate_reports[OF ks(1) this] show ?thesis .
qed

lemma route_post_rejected: "validate createResourceSchema body = Inl f \<Longrightarrow> route_post body db = (Rejected f, db)"
  by (simp add: route_post_def)

lemma route_put_rejected:
  "validate updateResourceSchema body = Inl f \<Longrightarrow> route_put id_param body db = (Rejected f, db)"
  by (simp add: route_put_def)

subsection \<open>The security filter in validation\<close>

lemma securityCheck_token:
  assumes "t \<in> {[CHR 0x27], [CHR 0x22], '';'', [CHR 0x5C], ''--'', ''#'', ''/*'', ''*/''}"
  shows "securityCheck (pre @ t @ suf) \<noteq> []"
proof -
  from assms consider "t = [CHR 0x27]" | "t = [CHR 0x22]" | "t = '';''" | "t = [CHR 0x5C]"
    | "t = ''--''" | "t = ''#''" | "t = ''/*''" | "t = ''*/''"
    by (simp only: insert_iff empty_iff) blast
  then show ?thesis
  proof cases
    case 1 then show ?thesis using securityCheck_quote[of "CHR 0x27" pre suf] by simp
  next
    case 2 then show ?thesis using securityCheck_quote[of "CHR 0x22" pre suf] by simp
  next
    case 3 then show ?thesis using securityCheck_quote[of "CHR '';''" pre suf] by simp
  next
    case 4 then show ?thesis using securityCheck_quote[of "CHR 0x5C" pre suf] by simp
  next
    case 5 then show ?thesis using securityCheck_comment[of "''--''" pre suf] by simp
  next
    case 6 then show ?thesis using securityCheck_comment[of "''#''" pre suf] by simp
  next
    case 7 then show ?thesis using securityCheck_comment[of "''/*''" pre suf] by simp
  next
    case 8 then show ?thesis using securityCheck_comment[of "''*/''" pre suf] by simp
  qed
qed


text \<open>
  C10. A string that contains a single quote, a double quote, a semicolon, a backslash or one
  of the comment tokens \<open>--\<close>, \<open>#\<close>, \<open>/*\<close>, \<open>*/\<close> gets a non-empty issue list from
  \<open>securityCheck\<close>; the create and the update validation therefore reject a name or a
  description that contains one, with that field's "potentially dangerous content" error,
  however benign the text is (a name such as \<open>O'Brien\<close>).
\<close>

theorem securityCheck_flags_quotes_and_comments:
  assumes "t \<in> {[CHR 0x27], [CHR 0x22], '';'', [CHR 0x5C], ''--'', ''#'', ''/*'', ''*/''}"
  shows "securityCheck (pre @ t @ suf) \<noteq> [] \<and>
    (sch = createResourceSchema \<or> sch = updateResourceSchema \<longrightarrow>
      (map_of body ''name'' = Some (JString (pre @ t @ suf)) \<longrightarrow>
        (\<exists>f. validate sch body = Inl f \<and> statusCode f = 400 \<and>
           \<lparr>field = ''name'', message = ''Name contains potentially dangerous content''\<rparr>
             \<in> set (details f))) \<and>
      (map_of body ''description'' = Some (JString (pre @ t @ suf)) \<longrightarrow>
        (\<exists>f. validate sch body = Inl f \<and> statusCode f = 400 \<and>
           \<lparr>field = ''description'',
            message = ''Description contains potentially dangerous content''\<rparr>
             \<in> set (details f))))"
proof (intro conjI impI)
  show issues: "securityCheck (pre @ t @ suf) \<noteq> []"
    by (rule securityCheck_token[OF assms])
  {
    assume sch: "sch = createResourceSchema \<or> sch = updateResourceSchema"
      and m: "map_of body ''name'' = Some (JString (pre @ t @ suf))"
    show "\<exists>f. validate sch body = Inl f \<and> statusCode f = 400 \<and>
           \<lparr>field = ''name'', message = ''Name contains potentially dangerous content''\<rparr>
             \<in> set (details f)"
      by (rule secure_name_rejected[OF issues sch m])
  }
  {
    assume sch: "sch = createResourceSchema \<or> sch = updateResourceSchema"
      and m: "map_of body ''description'' = Some (JString (pre @ t @ suf))"
    show "\<exists>f. validate sch body = Inl f \<and> statusCode f = 400 \<and>
           \<lparr>field = ''description'',
            message = ''Description contains potentially dangerous content''\<rparr>
             \<in> set (details f)"
      by (rule secure_description_rejected[OF issues sch m])
  }
qed


theorem securityCheck_flags_quotes_and_comments_witness:
  "[CHR 0x27] \<in> {[CHR 0x27], [CHR 0x22], '';'', [CHR 0x5C], ''--'', ''#'', ''/*'', ''*/''} \<and>
   securityCheck (''O'' @ [CHR 0x27] @ ''Brien'') \<noteq> [] \<and>
   (\<exists>f. validate createResourceSchema [(''name'', JString (''O'' @ [CHR 0x27] @ ''Brien''))] = Inl f \<and>
        statusCode f = 400 \<and>
        \<lparr>field = ''name'', message = ''Name contains potentially dangerous content''\<rparr>
          \<in> set (details f))"
proof -
  let ?body = "[(''name'', JString (''O'' @ [CHR 0x27] @ ''Brien''))]"
  have h: "[CHR 0x27] \<in> {[CHR 0x27], [CHR 0x22], '';'', [CHR 0x5C], ''--'', ''#'', ''/*'', ''*/''}"
    by (rule insertI1)
  have m: "map_of ?body ''name'' = Some (JString (''O'' @ [CHR 0x27] @ ''Brien''))"
    by (simp only: map_of.simps fst_conv snd_conv fun_upd_same)
  note w = securityCheck_flags_quotes_and_comments[OF h, of "''O''" "''Brien''"
      createResourceSchema ?body]
  have a: "securityCheck (''O'' @ [CHR 0x27] @ ''Brien'') \<noteq> []"
    using w by (rule conjunct1)
  have "map_of ?body ''name'' = Some (JString (''O'' @ [CHR 0x27] @ ''Brien'')) \<longrightarrow>
      (\<exists>f. validate createResourceSchema ?body = Inl f \<and> statusCode f = 400 \<and>
        \<lparr>field = ''name'', message = ''Name contains potentially dangerous content''\<rparr>
          \<in> set (details f))"
    using w[THEN conjunct2, THEN mp, OF disjI1[OF refl], THEN conjunct1] .
  then have b: "\<exists>f. validate createResourceSchema ?body = Inl f \<and> statusCode f = 400 \<and>
        \<lparr>field = ''name'', message = ''Name contains potentially dangerous content''\<rparr>
          \<in> set (details f)"
    using m by (rule mp)
  show ?thesis using h a b by (intro conjI)
qed

lemma post_name:
  assumes ne: "securityCheck s \<noteq> []" and m: "map_of body ''name'' = Some (JString s)"
  shows "\<exists>f. route_post body db = (Rejected f, db) \<and> statusCode f = 400 \<and>
           \<lparr>field = ''name'', message = ''Name contains potentially dangerous content''\<rparr>
             \<in> set (details f)"
proof -
  obtain f where f: "validate createResourceSchema body = Inl f" "statusCode f = 400"
    "\<lparr>field = ''name'', message = ''Name contains potentially dangerous content''\<rparr> \<in> set (details f)"
    using secure_name_rejected[OF ne disjI1[OF refl] m] by (elim exE conjE)
  show ?thesis using route_post_rejected[OF f(1), of db] f(2,3) by (intro exI[of _ f] conjI)
qed

lemma put_name:
  assumes ne: "securityCheck s \<noteq> []" and m: "map_of body ''name'' = Some (JString s)"
  shows "\<exists>f. route_put id_param body db = (Rejected f, db) \<and> statusCode f = 400 \<and>
           \<lparr>field = ''name'', message = ''Name contains potentially dangerous content''\<rparr>
             \<in> set (details f)"
proof -
  obtain f where f: "validate updateResourceSchema body = Inl f" "statusCode f = 400"
    "\<lparr>field = ''name'', message = ''Name contains potentially dangerous content''\<rparr> \<in> set (details f)"
    using secure_name_rejected[OF ne disjI2[OF refl] m] by (elim exE conjE)
  show ?thesis using route_put_rejected[OF f(1), of id_param db] f(2,3) by (intro exI[of _ f] conjI)
qed

lemma post_description:
  assumes ne: "securityCheck s \<noteq> []" and m: "map_of body ''description'' = Some (JString s)"
  shows "\<exists>f. route_post body db = (Rejected f, db) \<and> statusCode f = 400 \<and>
           \<lparr>field = ''description'',
            message = ''Description contains potentially dangerous content''\<rparr>
             \<in> set (details f)"
proof -
  obtain f where f: "validate createResourceSchema body = Inl f" "statusCode f = 400"
    "\<lparr>field = ''description'', message = ''Description contains potentially dangerous content''\<rparr>
       \<in> set (details f)"
    using secure_description_rejected[OF ne disjI1[OF refl] m] by (elim exE conjE)
  show ?thesis using route_post_rejected[OF f(1), of db] f(2,3) by (intro exI[of _ f] conjI)
qed

lemma put_description:
  assumes ne: "securityCheck s \<noteq> []" and m: "map_of body ''description'' = Some (JString s)"
  shows "\<exists>f. route_put id_param body db = (Rejected f, db) \<and> statusCode f = 400 \<and>
           \<lparr>field = ''description'',
            message = ''Description contains potentially dangerous content''\<rparr>
             \<in> set (details f)"
proof -
  obtain f where f: "validate updateResourceSchema body = Inl f" "statusCode f = 400"
    "\<lparr>field = ''description'', message = ''Description contains potentially dangerous content''\<rparr>
       \<in> set (details f)"
    using secure_description_rejected[OF ne disjI2[OF refl] m] by (elim exE conjE)
  show ?thesis using route_put_rejected[OF f(1), of id_param db] f(2,3) by (intro exI[of _ f] conjI)
qed

lemma xss_issue: "containsXSS s \<Longrightarrow> ''Potential XSS attack detected'' \<in> set (securityCheck s)"
  by (simp add: securityCheck_def)

lemma issues_nonempty: "i \<in> set (securityCheck s) \<Longrightarrow> securityCheck s \<noteq> []"
  by auto

text \<open>
  C8. A name or a description that contains \<open><script>alert(1)</script>\<close> is classified by
  the security filter as an XSS issue, and the create and the update route reject the request
  at validation with that field's "potentially dangerous content" error; the database is the
  one it was (no statement is run), so the value is not stored.
\<close>

theorem script_payload_rejected:
  "containsXSS (pre @ ''<script>alert(1)</script>'' @ suf) \<and>
   ''Potential XSS attack detected'' \<in> set (securityCheck (pre @ ''<script>alert(1)</script>'' @ suf)) \<and>
   (map_of body ''name'' = Some (JString (pre @ ''<script>alert(1)</script>'' @ suf)) \<longrightarrow>
      (\<exists>f. route_post body db = (Rejected f, db) \<and> statusCode f = 400 \<and>
           \<lparr>field = ''name'', message = ''Name contains potentially dangerous content''\<rparr>
             \<in> set (details f)) \<and>
      (\<exists>f. route_put id_param body db = (Rejected f, db) \<and> statusCode f = 400 \<and>
           \<lparr>field = ''name'', message = ''Name contains potentially dangerous content''\<rparr>
             \<in> set (details f))) \<and>
   (map_of body ''description'' = Some (JString (pre @ ''<script>alert(1)</script>'' @ suf)) \<longrightarrow>
      (\<exists>f. route_post body db = (Rejected f, db) \<and> statusCode f = 400 \<and>
           \<lparr>field = ''description'',
            message = ''Description contains potentially dangerous content''\<rparr>
             \<in> set (details f)) \<and>
      (\<exists>f. route_put id_param body db = (Rejected f, db) \<and> statusCode f = 400 \<and>
           \<lparr>field = ''description'',
            message = ''Description contains potentially dangerous content''\<rparr>
             \<in> set (details f)))"
proof -
  let ?s = "pre @ ''<script>alert(1)</script>'' @ suf"
  have xss: "containsXSS ?s" by (rule containsXSS_script)
  have issue: "''Potential XSS attack detected'' \<in> set (securityCheck ?s)"
    by (rule xss_issue[OF xss])
  have ne: "securityCheck ?s \<noteq> []"
    by (rule issues_nonempty[OF issue])
  show ?thesis
    using xss issue post_name[OF ne] put_name[OF ne] post_description[OF ne] put_description[OF ne]
    by (intro conjI impI)
qed


theorem script_payload_rejected_witness:
  "map_of [(''name'', JString ([] @ ''<script>alert(1)</script>'' @ [])),
           (''description'', JString ''A harmless description''),
           (''category'', JString ''technology'')] ''name''
     = Some (JString ([] @ ''<script>alert(1)</script>'' @ [])) \<and>
   (\<exists>f. route_post [(''name'', JString ([] @ ''<script>alert(1)</script>'' @ [])),
           (''description'', JString ''A harmless description''),
           (''category'', JString ''technology'')] (empty_database 0)
          = (Rejected f, empty_database 0) \<and> statusCode f = 400 \<and>
        \<lparr>field = ''name'', message = ''Name contains potentially dangerous content''\<rparr>
          \<in> set (details f))"
proof -
  let ?body = "[(''name'', JString ([] @ ''<script>alert(1)</script>'' @ [])),
           (''description'', JString ''A harmless description''),
           (''category'', JString ''technology'')]"
  have m: "map_of ?body ''name'' = Some (JString ([] @ ''<script>alert(1)</script>'' @ []))"
    by (simp only: map_of.simps fst_conv snd_conv fun_upd_same)
  note w = script_payload_rejected[of "[]" "[]" ?body "empty_database 0" "''1''"]
  have r: "\<exists>f. route_post ?body (empty_database 0) = (Rejected f, empty_database 0) \<and>
        statusCode f = 400 \<and>
        \<lparr>field = ''name'', message = ''Name contains potentially dangerous content''\<rparr>
          \<in> set (details f)"
    using w[THEN conjunct2, THEN conjunct2, THEN conjunct1, THEN mp, OF m, THEN conjunct1] .
  show ?thesis using m r by (intro conjI)
qed

subsection \<open>Validation reports every violated field\<close>

lemma run_rules_abort:
  "fst (run_rules True rs v) \<noteq> [] \<longleftrightarrow> fst (run_rules False rs v) \<noteq> []"
  by (induction rs arbitrary: v) (auto split: sum.splits prod.splits)

lemma validate_string_abort:
  "fst (validate_string True sch item) \<noteq> [] \<longleftrightarrow> fst (validate_string False sch item) \<noteq> []"
proof (cases item)
  case None
  then show ?thesis by (simp add: validate_string_def)
next
  case (Some j)
  show ?thesis
  proof (cases j)
    case (JString s)
    then show ?thesis
      using Some run_rules_abort[of "rules sch" s]
      by (auto simp: validate_string_def Let_def split: prod.splits)
  qed (use Some in \<open>auto simp: validate_string_def Let_def\<close>)
qed

lemma key_details_abort:
  "key_details ab ks body \<noteq> [] \<longleftrightarrow> key_details False ks body \<noteq> []"
  using validate_string_abort[of "snd ks" "map_of body (fst ks)"]
  by (cases ab) (simp_all add: key_details_def)

lemma key_details_field: "d \<in> set (key_details ab ks body) \<Longrightarrow> field d = fst ks"
  by (auto simp: key_details_def)

lemma key_value_key: "kv \<in> set (key_value ab ks body) \<Longrightarrow> fst kv = fst ks"
  by (auto simp: key_value_def split: option.splits)

lemma validate_Inl_details:
  assumes "validate sch body = Inl f" and "ks \<in> set (keys sch)"
  shows "statusCode f = 400 \<and> set (key_details False ks body) \<subseteq> set (details f)"
proof (cases "concat (map (\<lambda>k. key_details False k body) (keys sch)) = []")
  case True
  then have "key_details False ks body = []" using assms(2) by auto
  moreover have "statusCode f = 400"
    using assms(1) unfolding validate_unfold Let_def
    by (auto split: if_splits option.splits)
  ultimately show ?thesis by simp
next
  case False
  then have "f = \<lparr>statusCode = 400, error = ''Validation failed'',
      details = concat (map (\<lambda>k. key_details False k body) (keys sch))\<rparr>"
    using assms(1) unfolding validate_unfold Let_def by simp
  then show ?thesis using assms(2) by auto
qed

lemma validate_Inr_keys:
  assumes "validate sch body = Inr v"
  shows "fst ` set v \<subseteq> fst ` set (keys sch)"
proof -
  have v: "v = concat (map (\<lambda>k. key_value False k body) (keys sch))"
    using assms unfolding validate_unfold Let_def by (auto split: if_splits option.splits)
  show ?thesis
  proof
    fix k assume "k \<in> fst ` set v"
    then obtain kv where kv: "kv \<in> set v" "k = fst kv" by auto
    then obtain ks where ks: "ks \<in> set (keys sch)" "kv \<in> set (key_value False ks body)"
      unfolding v by auto
    have "fst kv = fst ks" by (rule key_value_key[OF ks(2)])
    then show "k \<in> fst ` set (keys sch)" using kv(2) ks(1) by auto
  qed
qed

lemma key_details_code:
  "c \<in> set (fst (validate_string ab (snd ks) (map_of body (fst ks)))) \<Longrightarrow>
     \<lparr>field = fst ks, message = message_for (messages (snd ks)) (fst ks) c\<rparr>
       \<in> set (key_details ab ks body)"
  by (simp add: key_details_def)

lemma create_short_name_missing_description:
  assumes n: "map_of body ''name'' = Some (JString n)" and len: "length n = 2"
    and d: "map_of body ''description'' = None"
  shows "\<exists>f. validate createResourceSchema body = Inl f \<and>
     \<lparr>field = ''name'', message = ''Name must be at least 3 characters long''\<rparr> \<in> set (details f) \<and>
     \<lparr>field = ''description'', message = ''Description is required''\<rparr> \<in> set (details f)"
proof -
  let ?kn = "(''name'', \<lparr>only = None, rules = [MinLength 3, MaxLength 100, Custom secureString],
          presence = Required, default_value = None,
          messages = [
            (''string.min'', ''Name must be at least 3 characters long''),
            (''string.max'', ''Name must not exceed 100 characters''),
            (''any.required'', ''Name is required''),
            (''string.security'', ''Name contains potentially dangerous content'')]\<rparr>)"
  let ?kd = "(''description'', \<lparr>only = None, rules = [MinLength 10, MaxLength 500, Custom secureString],
          presence = Required, default_value = None,
          messages = [
            (''string.min'', ''Description must be at least 10 characters long''),
            (''string.max'', ''Description must not exceed 500 characters''),
            (''any.required'', ''Description is required''),
            (''string.security'', ''Description contains potentially dangerous content'')]\<rparr>)"
  have kn: "?kn \<in> set (keys createResourceSchema)"
    by (simp add: createResourceSchema_def)
  have kd: "?kd \<in> set (keys createResourceSchema)"
    by (simp add: createResourceSchema_def)
  have "n \<noteq> []" using len by auto
  then have "''string.min'' \<in> set (fst (validate_string False (snd ?kn) (map_of body (fst ?kn))))"
    using len n by (simp add: validate_string_def Let_def split: prod.splits sum.splits)
  from key_details_code[OF this]
  have dn: "\<lparr>field = ''name'', message = ''Name must be at least 3 characters long''\<rparr>
      \<in> set (key_details False ?kn body)"
    by (simp add: message_for_def)
  have "''any.required'' \<in> set (fst (validate_string False (snd ?kd) (map_of body (fst ?kd))))"
    using d by (simp add: validate_string_def)
  from key_details_code[OF this]
  have dd: "\<lparr>field = ''description'', message = ''Description is required''\<rparr>
      \<in> set (key_details False ?kd body)"
    by (simp add: message_for_def)
  obtain f where f: "validate createResourceSchema body = Inl f"
    using validate_reports[OF kn dn] by (elim exE conjE)
  have "set (key_details False ?kn body) \<subseteq> set (details f)"
    and "set (key_details False ?kd body) \<subseteq> set (details f)"
    using validate_Inl_details[OF f kn] validate_Inl_details[OF f kd] by simp_all
  then show ?thesis using f dn dd by (intro exI[of _ f] conjI) auto
qed

text \<open>
  C5. Validation runs with \<open>abortEarly = false\<close> and \<open>stripUnknown = true\<close>. When it rejects
  a body, the answer is a 400 whose details hold, for every key of the schema that fails its
  own checks, all the errors of that key, each under the key's name: no key's errors are cut
  off by an earlier key's. A body with a failing key is rejected. An accepted body holds keys
  of the schema only. In particular a creation body with a name of two characters and no
  description is rejected with both a name error and a description error.
\<close>

theorem validate_reports_every_violated_field:
  "(validate sch body = Inl f \<longrightarrow>
      statusCode f = 400 \<and>
      (\<forall>ks\<in>set (keys sch). key_details ab ks body \<noteq> [] \<longrightarrow>
         key_details False ks body \<noteq> [] \<and>
         set (key_details False ks body) \<subseteq> set (details f) \<and>
         (\<forall>d\<in>set (key_details False ks body). field d = fst ks))) \<and>
   (\<forall>ks\<in>set (keys sch). key_details ab ks body \<noteq> [] \<longrightarrow> (\<exists>g. validate sch body = Inl g)) \<and>
   (validate sch body = Inr v \<longrightarrow> fst ` set v \<subseteq> fst ` set (keys sch)) \<and>
   (map_of body ''name'' = Some (JString n) \<and> length n = 2 \<and> map_of body ''description'' = None \<longrightarrow>
      (\<exists>g. validate createResourceSchema body = Inl g \<and>
         \<lparr>field = ''name'', message = ''Name must be at least 3 characters long''\<rparr>
           \<in> set (details g) \<and>
         \<lparr>field = ''description'', message = ''Description is required''\<rparr> \<in> set (details g)))"
proof (intro conjI impI ballI)
  assume f: "validate sch body = Inl f"
  fix ks assume ks: "ks \<in> set (keys sch)" and bad: "key_details ab ks body \<noteq> []"
  show "key_details False ks body \<noteq> []" using bad key_details_abort by blast
  show "set (key_details False ks body) \<subseteq> set (details f)"
    using validate_Inl_details[OF f ks] by simp
  fix d assume "d \<in> set (key_details False ks body)"
  then show "field d = fst ks" by (rule key_details_field)
next
  assume f: "validate sch body = Inl f"
  have "statusCode f = 400"
    using f unfolding validate_unfold Let_def by (auto split: if_splits option.splits)
  then show "statusCode f = 400" .
next
  fix ks assume ks: "ks \<in> set (keys sch)" and bad: "key_details ab ks body \<noteq> []"
  then have "key_details False ks body \<noteq> []" using key_details_abort by blast
  then obtain d where "d \<in> set (key_details False ks body)" by (cases "key_details False ks body") auto
  from validate_reports[OF ks this] show "\<exists>g. validate sch body = Inl g" by blast
next
  assume "validate sch body = Inr v"
  then show "fst ` set v \<subseteq> fst ` set (keys sch)" by (rule validate_Inr_keys)
next
  assume "map_of body ''name'' = Some (JString n) \<and> length n = 2 \<and> map_of body ''description'' = None"
  then show "\<exists>g. validate createResourceSchema body = Inl g \<and>
         \<lparr>field = ''name'', message = ''Name must be at least 3 characters long''\<rparr>
           \<in> set (details g) \<and>
         \<lparr>field = ''description'', message = ''Description is required''\<rparr> \<in> set (details g)"
    using create_short_name_missing_description by blast
qed

lemma accepted_update_example:
  "validate updateResourceSchema [(''category'', JString ''abc''), (''admin'', JBool True)]
     = Inr [(''category'', JString ''abc'')]"
  by code_simp

theorem validate_reports_every_violated_field_witness:
  "map_of [(''name'', JString ''ab''), (''category'', JString ''technology'')] ''name''
     = Some (JString ''ab'') \<and>
   length ''ab'' = 2 \<and>
   map_of [(''name'', JString ''ab''), (''category'', JString ''technology'')] ''description'' = None \<and>
   (\<exists>g. validate createResourceSchema
           [(''name'', JString ''ab''), (''category'', JString ''technology'')] = Inl g \<and>
        \<lparr>field = ''name'', message = ''Name must be at least 3 characters long''\<rparr>
          \<in> set (details g) \<and>
        \<lparr>field = ''description'', message = ''Description is required''\<rparr> \<in> set (details g)) \<and>
   validate updateResourceSchema [(''category'', JString ''abc''), (''admin'', JBool True)]
     = Inr [(''category'', JString ''abc'')] \<and>
   fst ` set [(''category'', JString ''abc'')] \<subseteq> fst ` set (keys updateResourceSchema)"
proof -
  let ?b0 = "[(''name'', JString ''ab''), (''category'', JString ''technology'')]"
  let ?b1 = "[(''category'', JString ''abc''), (''admin'', JBool True)]"
  have h1: "map_of ?b0 ''name'' = Some (JString ''ab'')" by simp
  have h2: "length ''ab'' = 2" by simp
  have h3: "map_of ?b0 ''description'' = None" by simp
  have h: "map_of ?b0 ''name'' = Some (JString ''ab'') \<and> length ''ab'' = 2 \<and>
      map_of ?b0 ''description'' = None"
    using h1 h2 h3 by (intro conjI)
  have r: "\<exists>g. validate createResourceSchema ?b0 = Inl g \<and>
        \<lparr>field = ''name'', message = ''Name must be at least 3 characters long''\<rparr>
          \<in> set (details g) \<and>
        \<lparr>field = ''description'', message = ''Description is required''\<rparr> \<in> set (details g)"
    using validate_reports_every_violated_field[of createResourceSchema ?b0 _ _ _ "''ab''",
        THEN conjunct2, THEN conjunct2, THEN conjunct2, THEN mp, OF h] .
  have a: "validate updateResourceSchema ?b1 = Inr [(''category'', JString ''abc'')]"
    by (rule accepted_update_example)
  have k: "fst ` set [(''category'', JString ''abc'')] \<subseteq> fst ` set (keys updateResourceSchema)"
    using validate_reports_every_violated_field[of updateResourceSchema ?b1 _ _
        "[(''category'', JString ''abc'')]", THEN conjunct2, THEN conjunct2, THEN conjunct1,
        THEN mp, OF a] .
  show ?thesis using h1 h2 h3 r a k by (intro conjI)
qed

subsection \<open>Updates, timestamps and id parameters\<close>

lemma getById_unfold:
  "ResourceService_getById i db =
     (find (\<lambda>r. id' r = i) (resources db), db\<lparr>journal := journal db @ [SelectById i]\<rparr>)"
  by (simp add: ResourceService_getById_def log_statement_def)

lemma assign_keeps:
  "id' (assign t r a) = id' r" "created_at (assign t r a) = created_at r"
  by (cases a; simp)+

lemma foldl_assign_keeps:
  "id' (foldl (assign t) r as) = id' r \<and> created_at (foldl (assign t) r as) = created_at r"
  by (induction as arbitrary: r) (simp_all add: assign_keeps)

lemma find_map_same_id:
  assumes "\<And>r. id' (g r) = id' r"
  shows "find (\<lambda>r. id' r = i) (map (\<lambda>r. if id' r = i then g r else r) rows)
           = map_option g (find (\<lambda>r. id' r = i) rows)"
  by (induction rows) (simp_all add: assms)

lemma filter_map_other_ids:
  "filter (\<lambda>r. id' r \<noteq> i) (map (\<lambda>r. if id' r = i then g r else r) rows)
     = filter (\<lambda>r. id' r \<noteq> i) rows"
  if "\<And>r. id' (g r) = id' r"
  by (induction rows) (simp_all add: that)

lemma update_fields_empty:
  "update_fields dto = [] \<longleftrightarrow>
     u_name dto = None \<and> u_description dto = None \<and> u_category dto = None \<and> u_status dto = None"
  by (auto simp: update_fields_def split: option.splits)

lemma foldl_assign_fields:
  "foldl (assign t) old (update_fields dto @ [SetUpdatedAtNow]) =
     old\<lparr>name := (case u_name dto of None \<Rightarrow> name old | Some v \<Rightarrow> v),
         description := (case u_description dto of None \<Rightarrow> description old | Some v \<Rightarrow> v),
         category := (case u_category dto of None \<Rightarrow> category old | Some v \<Rightarrow> v),
         status := (case u_status dto of None \<Rightarrow> status old | Some v \<Rightarrow> v),
         updated_at := t\<rparr>"
  by (simp add: update_fields_def split: option.splits)

lemma update_absent:
  assumes "find (\<lambda>r. id' r = i) (resources db) = None"
  shows "ResourceService_update i dto db = (None, db\<lparr>journal := journal db @ [SelectById i]\<rparr>)"
  using assms by (simp add: ResourceService_update_def getById_unfold)

lemma update_no_fields:
  assumes "find (\<lambda>r. id' r = i) (resources db) = Some old" and "update_fields dto = []"
  shows "ResourceService_update i dto db = (Some old, db\<lparr>journal := journal db @ [SelectById i]\<rparr>)"
  using assms by (simp add: ResourceService_update_def getById_unfold)

lemma update_some_fields:
  assumes "find (\<lambda>r. id' r = i) (resources db) = Some old" and "update_fields dto \<noteq> []"
  shows "ResourceService_update i dto db =
     (Some (foldl (assign (now db)) old (update_fields dto @ [SetUpdatedAtNow])),
      db\<lparr>resources := map (\<lambda>r. if id' r = i
                then foldl (assign (now db)) r (update_fields dto @ [SetUpdatedAtNow]) else r)
              (resources db),
         journal := journal db @ [SelectById i, Update (update_fields dto @ [SetUpdatedAtNow]) i,
                                  SelectById i]\<rparr>)"
proof -
  let ?g = "\<lambda>r. foldl (assign (now db)) r (update_fields dto @ [SetUpdatedAtNow])"
  have g: "\<And>r. id' (?g r) = id' r" using foldl_assign_keeps by blast
  have "find (\<lambda>r. id' r = i) (map (\<lambda>r. if id' r = i then ?g r else r) (resources db))
      = Some (?g old)"
    using find_map_same_id[of ?g i "resources db", OF g] assms(1) by simp
  then show ?thesis
    using assms
    by (simp add: ResourceService_update_def getById_unfold exec_update_def log_statement_def Let_def
        cong: if_cong)
qed

text \<open>
  C4, as the code has it. An update of an existing record that supplies at least one field
  changes, in that record, the supplied columns and \<open>updated_at\<close> only: an omitted field, the
  id and \<open>created_at\<close> keep their values, and the other records are untouched. \<open>updated_at\<close>
  becomes the clock's current second: it does not decrease if the clock has not gone back, and
  it increases strictly only if the clock has moved past the previous \<open>updated_at\<close>. With no
  field supplied the existing record is returned as it is and only the read by id is run.
\<close>

theorem update_changes_supplied_fields_only:
  assumes "find (\<lambda>r. id' r = i) (resources db) = Some old"
  shows "(\<not> (u_name dto = None \<and> u_description dto = None \<and> u_category dto = None \<and>
              u_status dto = None) \<longrightarrow>
           (\<exists>new. fst (ResourceService_update i dto db) = Some new \<and>
              name new = (case u_name dto of None \<Rightarrow> name old | Some v \<Rightarrow> v) \<and>
              description new = (case u_description dto of None \<Rightarrow> description old | Some v \<Rightarrow> v) \<and>
              category new = (case u_category dto of None \<Rightarrow> category old | Some v \<Rightarrow> v) \<and>
              status new = (case u_status dto of None \<Rightarrow> status old | Some v \<Rightarrow> v) \<and>
              id' new = id' old \<and> created_at new = created_at old \<and>
              updated_at new = now db \<and>
              (updated_at old \<le> now db \<longrightarrow> updated_at old \<le> updated_at new) \<and>
              (updated_at old < now db \<longrightarrow> updated_at old < updated_at new)) \<and>
           filter (\<lambda>r. id' r \<noteq> i) (resources (snd (ResourceService_update i dto db)))
             = filter (\<lambda>r. id' r \<noteq> i) (resources db) \<and>
           journal (snd (ResourceService_update i dto db))
             = journal db @ [SelectById i, Update (update_fields dto @ [SetUpdatedAtNow]) i,
                             SelectById i]) \<and>
         (u_name dto = None \<and> u_description dto = None \<and> u_category dto = None \<and>
            u_status dto = None \<longrightarrow>
           fst (ResourceService_update i dto db) = Some old \<and>
           resources (snd (ResourceService_update i dto db)) = resources db \<and>
           journal (snd (ResourceService_update i dto db)) = journal db @ [SelectById i])"
proof (intro conjI impI)
  assume "u_name dto = None \<and> u_description dto = None \<and> u_category dto = None \<and>
            u_status dto = None"
  then have e: "update_fields dto = []" by (simp add: update_fields_empty)
  show "fst (ResourceService_update i dto db) = Some old"
    and "resources (snd (ResourceService_update i dto db)) = resources db"
    and "journal (snd (ResourceService_update i dto db)) = journal db @ [SelectById i]"
    by (simp_all add: update_no_fields[OF assms e])
next
  assume "\<not> (u_name dto = None \<and> u_description dto = None \<and> u_category dto = None \<and>
              u_status dto = None)"
  then have ne: "update_fields dto \<noteq> []" by (simp add: update_fields_empty)
  note u = update_some_fields[OF assms ne]
  let ?g = "\<lambda>r. foldl (assign (now db)) r (update_fields dto @ [SetUpdatedAtNow])"
  have g: "\<And>r. id' (?g r) = id' r" using foldl_assign_keeps by blast
  show "\<exists>new. fst (ResourceService_update i dto db) = Some new \<and>
              name new = (case u_name dto of None \<Rightarrow> name old | Some v \<Rightarrow> v) \<and>
              description new = (case u_description dto of None \<Rightarrow> description old | Some v \<Rightarrow> v) \<and>
              category new = (case u_category dto of None \<Rightarrow> category old | Some v \<Rightarrow> v) \<and>
              status new = (case u_status dto of None \<Rightarrow> status old | Some v \<Rightarrow> v) \<and>
              id' new = id' old \<and> created_at new = created_at old \<and>
              updated_at new = now db \<and>
              (updated_at old \<le> now db \<longrightarrow> updated_at old \<le> updated_at new) \<and>
              (updated_at old < now db \<longrightarrow> updated_at old < updated_at new)"
    by (rule exI[of _ "?g old"]) (simp only: u fst_conv foldl_assign_fields, simp)
  show "filter (\<lambda>r. id' r \<noteq> i) (resources (snd (ResourceService_update i dto db)))
             = filter (\<lambda>r. id' r \<noteq> i) (resources db)"
    using filter_map_other_ids[of ?g i "resources db", OF g] by (simp add: u)
  show "journal (snd (ResourceService_update i dto db))
             = journal db @ [SelectById i, Update (update_fields dto @ [SetUpdatedAtNow]) i,
                             SelectById i]"
    by (simp add: u)
qed

lemma one_row_find:
  "find (\<lambda>r. id' r = 1) (resources one_row)
     = Some \<lparr>id' = 1, name = ''Web API'', description = ''RESTful API service'',
             category = ''technology'', status = Active, created_at = 0, updated_at = 0\<rparr>"
  by code_simp

lemma rename_supplies_name:
  "\<not> (u_name rename_dto = None \<and> u_description rename_dto = None \<and> u_category rename_dto = None \<and>
      u_status rename_dto = None)"
  by (simp add: rename_dto_def)

theorem update_changes_supplied_fields_only_witness:
  "find (\<lambda>r. id' r = 1) (resources one_row)
     = Some \<lparr>id' = 1, name = ''Web API'', description = ''RESTful API service'',
             category = ''technology'', status = Active, created_at = 0, updated_at = 0\<rparr> \<and>
   \<not> (u_name rename_dto = None \<and> u_description rename_dto = None \<and> u_category rename_dto = None \<and>
      u_status rename_dto = None) \<and>
   journal (snd (ResourceService_update 1 rename_dto one_row))
     = journal one_row @ [SelectById 1, Update (update_fields rename_dto @ [SetUpdatedAtNow]) 1,
                          SelectById 1]"
proof -
  note w = update_changes_supplied_fields_only[OF one_row_find, of rename_dto, THEN conjunct1,
      THEN mp, OF rename_supplies_name]
  show ?thesis
    using one_row_find rename_supplies_name w[THEN conjunct2, THEN conjunct2] by (intro conjI)
qed

text \<open>
  C4, as stated, fails in its "strictly increasing": a record updated within the second of
  its creation keeps its \<open>updated_at\<close>.
\<close>

theorem update_same_second_counterexample:
  "map_option updated_at (fst (ResourceService_getById 1 one_row)) = Some 0 \<and>
   u_name rename_dto = Some ''Web API v2'' \<and>
   map_option name (fst (ResourceService_update 1 rename_dto one_row)) = Some ''Web API v2'' \<and>
   map_option updated_at (fst (ResourceService_update 1 rename_dto one_row)) = Some 0"
  by code_simp

lemma find_append_new:
  "\<forall>y\<in>set xs. \<not> P y \<Longrightarrow> P x \<Longrightarrow> find P (xs @ [x]) = Some x"
  by (induction xs) simp_all

lemma create_unfold:
  "ResourceService_create dto db =
     (find (\<lambda>r. id' r = sqlite_sequence db + 1)
        (resources db @ [\<lparr>id' = sqlite_sequence db + 1, name = c_name dto,
           description = c_description dto, category = c_category dto,
           status = (case c_status dto of None \<Rightarrow> Active | Some s \<Rightarrow> s),
           created_at = now db, updated_at = now db\<rparr>]),
      db\<lparr>resources := resources db @ [\<lparr>id' = sqlite_sequence db + 1, name = c_name dto,
           description = c_description dto, category = c_category dto,
           status = (case c_status dto of None \<Rightarrow> Active | Some s \<Rightarrow> s),
           created_at = now db, updated_at = now db\<rparr>],
         sqlite_sequence := sqlite_sequence db + 1,
         journal := journal db @
           [Insert (c_name dto) (c_description dto) (c_category dto)
              (case c_status dto of None \<Rightarrow> Active | Some s \<Rightarrow> s),
            SelectById (sqlite_sequence db + 1)]\<rparr>)"
  by (simp add: ResourceService_create_def exec_insert_def getById_unfold log_statement_def Let_def)

lemma update_rows:
  "resources (snd (ResourceService_update i dto db)) = resources db \<or>
   resources (snd (ResourceService_update i dto db)) =
     map (\<lambda>r. if id' r = i
                then foldl (assign (now db)) r (update_fields dto @ [SetUpdatedAtNow]) else r)
       (resources db)"
proof (cases "find (\<lambda>r. id' r = i) (resources db)")
  case None
  then show ?thesis by (simp add: update_absent)
next
  case (Some old)
  then show ?thesis
    by (cases "update_fields dto = []") (simp_all add: update_no_fields update_some_fields)
qed

lemma update_rest:
  "sqlite_sequence (snd (ResourceService_update i dto db)) = sqlite_sequence db \<and>
   now (snd (ResourceService_update i dto db)) = now db"
proof (cases "find (\<lambda>r. id' r = i) (resources db)")
  case None
  then show ?thesis by (simp add: update_absent)
next
  case (Some old)
  then show ?thesis
    by (cases "update_fields dto = []") (simp_all add: update_no_fields update_some_fields)
qed

lemma updated_at_after:
  "updated_at (foldl (assign t) r (update_fields dto @ [SetUpdatedAtNow])) = t"
  by (simp only: foldl_assign_fields) simp

lemma delete_unfold:
  "ResourceService_delete i db =
     (find (\<lambda>r. id' r = i) (resources db) \<noteq> None,
      db\<lparr>resources := filter (\<lambda>r. id' r \<noteq> i) (resources db),
         journal := journal db @ [Delete i]\<rparr>)"
  by (auto simp: ResourceService_delete_def exec_delete_def log_statement_def find_None_iff
      filter_empty_conv)

lemma update_present:
  assumes "find (\<lambda>r. id' r = i) (resources db) = Some old"
  shows "\<exists>new. fst (ResourceService_update i dto db) = Some new \<and> id' new = id' old"
proof (cases "update_fields dto = []")
  case True
  then show ?thesis by (simp add: update_no_fields[OF assms])
next
  case False
  then show ?thesis
    using foldl_assign_keeps[of "now db" old "update_fields dto @ [SetUpdatedAtNow]"]
    by (simp only: update_some_fields[OF assms False] fst_conv) blast
qed

lemma digit_not_space: "is_digit c \<Longrightarrow> \<not> is_space c"
  by (auto simp: is_digit_def is_space_def)

lemma digit_not_sign: "is_digit c \<Longrightarrow> c \<noteq> CHR ''-'' \<and> c \<noteq> CHR ''+''"
  by (auto simp: is_digit_def code_def)

lemma digit_not_x: "is_digit c \<Longrightarrow> c \<noteq> CHR ''x'' \<and> c \<noteq> CHR ''X''"
  by (auto simp: is_digit_def code_def)

lemma digits_of_digit: "is_digit c \<Longrightarrow> digits_of 10 (c # cs) \<noteq> []"
  by (auto simp: digit_value_def is_digit_def)

lemma digits_of_no_digit: "\<not> is_digit c \<Longrightarrow> digits_of 10 (c # cs) = []"
  by (auto simp: digit_value_def is_digit_def is_lower_def is_upper_def)

lemma parseInt_all_digits:
  assumes "s \<noteq> []" and "list_all is_digit s"
  shows "parseInt s 0 \<noteq> None"
proof -
  obtain c cs where s: "s = c # cs" using assms(1) by (cases s) auto
  have c: "is_digit c" using assms(2) s by simp
  have nohex: "\<not> has_hex_prefix s"
  proof (cases cs)
    case Nil
    then show ?thesis by (simp add: s has_hex_prefix_def)
  next
    case (Cons d ds)
    then have "is_digit d" using assms(2) s by simp
    then show ?thesis using digit_not_x[of d] by (simp add: s Cons has_hex_prefix_def)
  qed
  show ?thesis
    using c nohex digit_not_space[OF c] digit_not_sign[OF c] digits_of_digit[OF c, of cs]
    by (simp add: parseInt_def s Let_def)
qed

lemma parseInt_no_leading_number:
  assumes "case s of [] \<Rightarrow> True
           | c # _ \<Rightarrow> \<not> is_space c \<and> c \<noteq> CHR ''-'' \<and> c \<noteq> CHR ''+'' \<and> \<not> is_digit c"
  shows "parseInt s 0 = None"
proof (cases s)
  case Nil
  then show ?thesis by (simp add: parseInt_def has_hex_prefix_def)
next
  case (Cons c cs)
  then have c: "\<not> is_space c" "c \<noteq> CHR ''-''" "c \<noteq> CHR ''+''" "\<not> is_digit c"
    using assms by simp_all
  have z: "c \<noteq> CHR ''0''" using c(4) by (auto simp: is_digit_def code_def)
  have nohex: "\<not> has_hex_prefix s"
    using z by (cases cs) (simp_all add: Cons has_hex_prefix_def)
  show ?thesis
    using c nohex digits_of_no_digit[OF c(4), of cs]
    by (simp add: parseInt_def Cons Let_def)
qed

text \<open>
  C7, as the code has it. The handlers for get-by-id, update and delete read the id with
  \<open>parseInt\<close>. When that gives \<open>NaN\<close> they hand a 400 "Invalid resource ID" error on and the
  database, journal included, is the one it was. Otherwise they go to the store with the
  integer read: no record of that id gives 404, a record gives 200. \<open>parseInt\<close> gives \<open>NaN\<close>
  for an id that is empty or starts with a character that is neither white space, nor a
  sign, nor a digit; it gives a number for every non-empty string of digits, and also for
  ids that only start with one.
\<close>

theorem id_parameter_handling:
  "(parseInt s 0 = None \<longrightarrow>
      ResourceController_getById s db = (Next (AppError 400 ''Invalid resource ID''), db) \<and>
      ResourceController_update s dto db = (Next (AppError 400 ''Invalid resource ID''), db) \<and>
      ResourceController_delete s db = (Next (AppError 400 ''Invalid resource ID''), db)) \<and>
   (parseInt s 0 = Some i \<longrightarrow>
      (find (\<lambda>r. id' r = i) (resources db) = None \<longrightarrow>
         fst (ResourceController_getById s db) = Next (AppError 404 ''Resource not found'') \<and>
         fst (ResourceController_update s dto db) = Next (AppError 404 ''Resource not found'') \<and>
         fst (ResourceController_delete s db) = Next (AppError 404 ''Resource not found'')) \<and>
      (find (\<lambda>r. id' r = i) (resources db) = Some r \<longrightarrow>
         fst (ResourceController_getById s db) = Json 200 (ResourceBody (Some r)) \<and>
         (\<exists>new. fst (ResourceController_update s dto db) = Json 200 (ResourceBody (Some new)) \<and>
                id' new = id' r) \<and>
         fst (ResourceController_delete s db)
           = Json 200 (MessageBody ''Resource deleted successfully''))) \<and>
   ((case s of [] \<Rightarrow> True
     | c # _ \<Rightarrow> \<not> is_space c \<and> c \<noteq> CHR ''-'' \<and> c \<noteq> CHR ''+'' \<and> \<not> is_digit c) \<longrightarrow>
      parseInt s 0 = None) \<and>
   (s \<noteq> [] \<and> list_all is_digit s \<longrightarrow> parseInt s 0 \<noteq> None)"
proof (intro conjI impI)
  assume n: "parseInt s 0 = None"
  show "ResourceController_getById s db = (Next (AppError 400 ''Invalid resource ID''), db)"
    by (simp add: ResourceController_getById_def n)
  show "ResourceController_update s dto db = (Next (AppError 400 ''Invalid resource ID''), db)"
    by (simp add: ResourceController_update_def n)
  show "ResourceController_delete s db = (Next (AppError 400 ''Invalid resource ID''), db)"
    by (simp add: ResourceController_delete_def n)
next
  assume p: "parseInt s 0 = Some i" and f: "find (\<lambda>r. id' r = i) (resources db) = None"
  show "fst (ResourceController_getById s db) = Next (AppError 404 ''Resource not found'')"
    by (simp add: ResourceController_getById_def p getById_unfold f)
  show "fst (ResourceController_update s dto db) = Next (AppError 404 ''Resource not found'')"
    by (simp add: ResourceController_update_def p update_absent[OF f])
  show "fst (ResourceController_delete s db) = Next (AppError 404 ''Resource not found'')"
    by (simp add: ResourceController_delete_def p delete_unfold f)
next
  assume p: "parseInt s 0 = Some i" and f: "find (\<lambda>r. id' r = i) (resources db) = Some r"
  show "fst (ResourceController_getById s db) = Json 200 (ResourceBody (Some r))"
    by (simp add: ResourceController_getById_def p getById_unfold f)
  obtain new where new: "fst (ResourceService_update i dto db) = Some new" "id' new = id' r"
    using update_present[OF f] by blast
  show "\<exists>new. fst (ResourceController_update s dto db) = Json 200 (ResourceBody (Some new)) \<and>
                id' new = id' r"
    using new by (intro exI[of _ new]) (auto simp: ResourceController_update_def p split: prod.splits)
  show "fst (ResourceController_delete s db) = Json 200 (MessageBody ''Resource deleted successfully'')"
    by (simp add: ResourceController_delete_def p delete_unfold f)
next
  assume "case s of [] \<Rightarrow> True
     | c # _ \<Rightarrow> \<not> is_space c \<and> c \<noteq> CHR ''-'' \<and> c \<noteq> CHR ''+'' \<and> \<not> is_digit c"
  then show "parseInt s 0 = None" by (rule parseInt_no_leading_number)
next
  assume "s \<noteq> [] \<and> list_all is_digit s"
  then show "parseInt s 0 \<noteq> None" using parseInt_all_digits by blast
qed

lemma abc_is_NaN: "parseInt ''abc'' 0 = None"
  by code_simp

theorem id_parameter_handling_witness:
  "parseInt ''abc'' 0 = None \<and>
   ResourceController_getById ''abc'' one_row = (Next (AppError 400 ''Invalid resource ID''), one_row) \<and>
   ResourceController_update ''abc'' rename_dto one_row
     = (Next (AppError 400 ''Invalid resource ID''), one_row) \<and>
   ResourceController_delete ''abc'' one_row = (Next (AppError 400 ''Invalid resource ID''), one_row)"
  using abc_is_NaN
    id_parameter_handling[of "''abc''" one_row rename_dto, THEN conjunct1, THEN mp, OF abc_is_NaN]
  by (intro conjI) (elim conjE, assumption)+

text \<open>
  C7, as stated, fails: the id \<open>1abc\<close> is not numeric, yet the handlers read it as 1 and go to
  the store; get-by-id answers 200 with record 1 and delete removes record 1.
\<close>

theorem non_numeric_id_counterexample:
  "\<not> list_all is_digit ''1abc'' \<and>
   parseInt ''1abc'' 0 = Some 1 \<and>
   fst (ResourceController_getById ''1abc'' one_row)
     = Json 200 (ResourceBody (Some \<lparr>id' = 1, name = ''Web API'',
         description = ''RESTful API service'', category = ''technology'', status = Active,
         created_at = 0, updated_at = 0\<rparr>)) \<and>
   journal (snd (ResourceController_getById ''1abc'' one_row)) = journal one_row @ [SelectById 1] \<and>
   fst (ResourceController_delete ''1abc'' one_row)
     = Json 200 (MessageBody ''Resource deleted successfully'') \<and>
   resources (snd (ResourceController_delete ''1abc'' one_row)) = []"
  by code_simp

subsection \<open>Rate limiter\<close>

lemma rate_limit_other: "k' \<noteq> k \<Longrightarrow> snd (rate_limit opts k' t cs) k = cs k"
  by (simp add: rate_limit_def Let_def)

lemma rate_limit_live:
  assumes "cs k = Some \<lparr>hits = h, expiry = e\<rparr>" and "t < e"
  shows "rate_limit opts k t cs
           = (h + 1 \<le> max_requests opts, cs(k \<mapsto> \<lparr>hits = h + 1, expiry = e\<rparr>))"
  using assms by (simp add: rate_limit_def live_counter_def Let_def)

lemma rate_limit_fresh:
  assumes "live_counter cs k t = None"
  shows "rate_limit opts k t cs
           = (1 \<le> max_requests opts, cs(k \<mapsto> \<lparr>hits = 1, expiry = t + windowMs opts\<rparr>))"
  using assms by (simp add: rate_limit_def Let_def)

lemma serve_Cons:
  "serve opts ((k, t) # reqs) cs =
     (fst (rate_limit opts k t cs) # fst (serve opts reqs (snd (rate_limit opts k t cs))),
      snd (serve opts reqs (snd (rate_limit opts k t cs))))"
  by (simp split: prod.splits)

lemma map_upt_shift: "map f [0..<Suc n] = f 0 # map (\<lambda>j. f (Suc j)) [0..<n]"
  by (simp only: map_upt_Suc)

lemma serve_window:
  assumes "cs k = Some \<lparr>hits = h, expiry = e\<rparr>"
    and "\<forall>r\<in>set reqs. fst r = k \<longrightarrow> snd r < e"
  shows "verdicts_of k reqs (fst (serve opts reqs cs))
           = map (\<lambda>j. h + j + 1 \<le> max_requests opts) [0..<length (filter (\<lambda>r. fst r = k) reqs)] \<and>
         snd (serve opts reqs cs) k
           = Some \<lparr>hits = h + length (filter (\<lambda>r. fst r = k) reqs), expiry = e\<rparr>"
  using assms
proof (induction reqs arbitrary: cs h)
  case Nil
  then show ?case by (simp add: verdicts_of_def)
next
  case (Cons r reqs)
  obtain k' t where r: "r = (k', t)" by (cases r)
  show ?case
  proof (cases "k' = k")
    case True
    have t: "t < e" using Cons.prems(2) r True by simp
    let ?cs1 = "cs(k \<mapsto> \<lparr>hits = h + 1, expiry = e\<rparr>)"
    have step: "rate_limit opts k t cs = (h + 1 \<le> max_requests opts, ?cs1)"
      by (rule rate_limit_live[where cs = cs and k = k and h = h and e = e, OF Cons.prems(1) t])
    have ih: "verdicts_of k reqs (fst (serve opts reqs ?cs1))
           = map (\<lambda>j. (h + 1) + j + 1 \<le> max_requests opts) [0..<length (filter (\<lambda>r. fst r = k) reqs)] \<and>
         snd (serve opts reqs ?cs1) k
           = Some \<lparr>hits = (h + 1) + length (filter (\<lambda>r. fst r = k) reqs), expiry = e\<rparr>"
      by (rule Cons.IH) (use Cons.prems(2) in simp_all)
    show ?thesis
      using ih
      by (simp add: r True step verdicts_of_def map_upt_shift serve_Cons del: upt_Suc serve.simps)
  next
    case False
    have "snd (rate_limit opts k' t cs) k = Some \<lparr>hits = h, expiry = e\<rparr>"
      using rate_limit_other[OF False] Cons.prems(1) by simp
    then have ih: "verdicts_of k reqs (fst (serve opts reqs (snd (rate_limit opts k' t cs))))
           = map (\<lambda>j. h + j + 1 \<le> max_requests opts) [0..<length (filter (\<lambda>r. fst r = k) reqs)] \<and>
         snd (serve opts reqs (snd (rate_limit opts k' t cs))) k
           = Some \<lparr>hits = h + length (filter (\<lambda>r. fst r = k) reqs), expiry = e\<rparr>"
      by (rule Cons.IH) (use Cons.prems(2) in simp_all)
    show ?thesis
      using ih False by (simp add: r verdicts_of_def serve_Cons del: serve.simps)
  qed
qed

text \<open>
  C9. With the configured limiter (a window of 15 minutes, at most 100 requests), a client
  without a live counter opens a window at its request at time \<open>t0\<close>; whatever other clients
  do in between, of that client's requests before \<open>t0 + windowMs\<close> the first 100 pass and the
  101st and all later ones are rejected; once the window has elapsed the counter counts as
  absent and the client's next request passes.
\<close>

theorem rate_limit_window:
  assumes "live_counter cs k t0 = None"
    and "\<forall>r\<in>set reqs. fst r = k \<longrightarrow> snd r < t0 + windowMs limiter"
  shows "verdicts_of k ((k, t0) # reqs) (fst (serve limiter ((k, t0) # reqs) cs))
           = map (\<lambda>j. j < 100) [0..<Suc (length (filter (\<lambda>r. fst r = k) reqs))] \<and>
         (\<forall>t. t0 + windowMs limiter \<le> t \<longrightarrow>
            fst (rate_limit limiter k t (snd (serve limiter ((k, t0) # reqs) cs))))"
proof -
  let ?cs1 = "cs(k \<mapsto> \<lparr>hits = 1, expiry = t0 + windowMs limiter\<rparr>)"
  let ?n = "length (filter (\<lambda>r. fst r = k) reqs)"
  have first: "rate_limit limiter k t0 cs = (True, ?cs1)"
    by (simp add: rate_limit_fresh[OF assms(1)] limiter_def)
  have c1: "?cs1 k = Some \<lparr>hits = 1, expiry = t0 + windowMs limiter\<rparr>" by simp
  note w = serve_window[where cs = ?cs1 and k = k and h = 1 and e = "t0 + windowMs limiter"
      and opts = limiter, OF c1 assms(2)]
  have rest: "verdicts_of k reqs (fst (serve limiter reqs ?cs1)) = map (\<lambda>j. Suc j < 100) [0..<?n]"
    using w[THEN conjunct1] by (simp add: limiter_def Suc_le_eq)
  have final: "snd (serve limiter reqs ?cs1) k = Some \<lparr>hits = 1 + ?n, expiry = t0 + windowMs limiter\<rparr>"
    using w[THEN conjunct2] .
  have a: "verdicts_of k ((k, t0) # reqs) (fst (serve limiter ((k, t0) # reqs) cs))
           = map (\<lambda>j. j < 100) [0..<Suc ?n]"
    using rest
    by (simp add: serve_Cons first verdicts_of_def map_upt_shift del: serve.simps upt_Suc)
  have b: "fst (rate_limit limiter k t (snd (serve limiter ((k, t0) # reqs) cs)))"
    if "t0 + windowMs limiter \<le> t" for t
  proof -
    have s: "snd (serve limiter ((k, t0) # reqs) cs) = snd (serve limiter reqs ?cs1)"
      by (simp add: serve_Cons first del: serve.simps)
    have "live_counter (snd (serve limiter reqs ?cs1)) k t = None"
      using final that by (simp add: live_counter_def)
    then have "fst (rate_limit limiter k t (snd (serve limiter reqs ?cs1)))
        = (1 \<le> max_requests limiter)"
      by (simp add: rate_limit_fresh)
    then show ?thesis unfolding s by (simp add: limiter_def)
  qed
  show ?thesis using a b by blast
qed

theorem rate_limit_window_witness:
  "live_counter Map.empty ''10.0.0.1'' 0 = None \<and>
   list_all (\<lambda>r. snd r < 0 + windowMs limiter) (replicate 101 (''10.0.0.1'', 1::nat)) \<and>
   verdicts_of ''10.0.0.1'' ((''10.0.0.1'', 0) # replicate 101 (''10.0.0.1'', 1::nat))
      (fst (serve limiter ((''10.0.0.1'', 0) # replicate 101 (''10.0.0.1'', 1::nat)) Map.empty))
     = map (\<lambda>j. j < 100)
         [0..<Suc (length (filter (\<lambda>r. fst r = ''10.0.0.1'') (replicate 101 (''10.0.0.1'', 1::nat))))] \<and>
   fst (rate_limit limiter ''10.0.0.1'' 900000
          (snd (serve limiter ((''10.0.0.1'', 0) # replicate 101 (''10.0.0.1'', 1::nat)) Map.empty)))"
proof -
  have h1: "live_counter Map.empty ''10.0.0.1'' 0 = None"
    by (simp add: live_counter_def)
  have h2: "\<forall>r\<in>set (replicate 101 (''10.0.0.1'', 1::nat)).
       fst r = ''10.0.0.1'' \<longrightarrow> snd r < 0 + windowMs limiter"
    by (simp add: limiter_def)
  note w = rate_limit_window[OF h1 h2]
  have late: "0 + windowMs limiter \<le> 900000" by (simp add: limiter_def)
  have h3: "list_all (\<lambda>r. snd r < 0 + windowMs limiter) (replicate 101 (''10.0.0.1'', 1::nat))"
    by (simp add: limiter_def list_all_iff)
  show ?thesis
    using h1 h3 w[THEN conjunct1] w[THEN conjunct2, THEN spec, THEN mp, OF late]
    by (intro conjI)
qed

subsection \<open>Histories: ids and timestamps\<close>

lemma map_same_ids_ascending:
  assumes "\<And>r. id' (g r) = id' r" and "sorted_wrt (\<lambda>a b. id' a < id' b) rows"
  shows "sorted_wrt (\<lambda>a b. id' a < id' b) (map (\<lambda>r. if id' r = i then g r else r) rows)"
proof -
  have k: "id' (if id' r = i then g r else r) = id' r" for r by (simp add: assms(1))
  show ?thesis unfolding sorted_wrt_map k by (rule assms(2))
qed

lemma ids_ascending_step:
  assumes "sorted_wrt (\<lambda>a b. id' a < id' b) (resources db)"
    and "\<forall>r\<in>set (resources db). id' r \<le> sqlite_sequence db"
  shows "sorted_wrt (\<lambda>a b. id' a < id' b) (resources (step db op)) \<and>
         (\<forall>r\<in>set (resources (step db op)). id' r \<le> sqlite_sequence (step db op))"
proof (cases op)
  case (OpCreate dto)
  then show ?thesis using assms by (auto simp: create_unfold sorted_wrt_append)
next
  case (OpUpdate i dto)
  let ?g = "\<lambda>r. foldl (assign (now db)) r (update_fields dto @ [SetUpdatedAtNow])"
  have g: "id' (?g r) = id' r" for r using foldl_assign_keeps by blast
  have m: "sorted_wrt (\<lambda>a b. id' a < id' b) (map (\<lambda>r. if id' r = i then ?g r else r) (resources db))"
    by (rule map_same_ids_ascending[OF g assms(1)])
  have s: "\<forall>r\<in>set (map (\<lambda>r. if id' r = i then ?g r else r) (resources db)). id' r \<le> sqlite_sequence db"
    using assms(2) g by auto
  show ?thesis
    using update_rows[of i dto db] update_rest[of i dto db] assms m s
    by (auto simp: OpUpdate)
next
  case (OpDelete i)
  then show ?thesis
    using assms by (auto simp: delete_unfold sorted_wrt_filter)
next
  case (OpClock t)
  then show ?thesis using assms by auto
qed

lemma ids_ascending_run:
  assumes "sorted_wrt (\<lambda>a b. id' a < id' b) (resources db)"
    and "\<forall>r\<in>set (resources db). id' r \<le> sqlite_sequence db"
  shows "sorted_wrt (\<lambda>a b. id' a < id' b) (resources (run ops db)) \<and>
         (\<forall>r\<in>set (resources (run ops db)). id' r \<le> sqlite_sequence (run ops db))"
  using assms unfolding run_def
proof (induction ops arbitrary: db)
  case Nil
  then show ?case by simp
next
  case (Cons op ops)
  show ?case
    using Cons.IH[of "step db op"] ids_ascending_step[OF Cons.prems, of op] by simp
qed

lemma reachable_ids_ascending:
  "sorted_wrt (\<lambda>a b. id' a < id' b) (resources (run ops (empty_database t0)))"
  using ids_ascending_run[of "empty_database t0" ops] by (simp add: empty_database_def)

lemma reachable_ids_bounded:
  "\<forall>r\<in>set (resources (run ops (empty_database t0))).
      id' r \<le> sqlite_sequence (run ops (empty_database t0))"
  using ids_ascending_run[of "empty_database t0" ops] by (simp add: empty_database_def)

lemma step_keeps_timestamps:
  assumes "\<forall>r\<in>set (resources db). created_at r \<le> updated_at r \<and> updated_at r \<le> now db"
    and "now db \<le> now (step db op)"
  shows "\<forall>r\<in>set (resources (step db op)).
           created_at r \<le> updated_at r \<and> updated_at r \<le> now (step db op)"
proof (cases op)
  case (OpCreate dto)
  then show ?thesis using assms(1) by (auto simp: create_unfold)
next
  case (OpUpdate i dto)
  let ?g = "\<lambda>r. foldl (assign (now db)) r (update_fields dto @ [SetUpdatedAtNow])"
  have g: "created_at (?g r) \<le> updated_at (?g r) \<and> updated_at (?g r) \<le> now db"
    if "r \<in> set (resources db)" for r
    using assms(1) that foldl_assign_keeps[of "now db" r "update_fields dto @ [SetUpdatedAtNow]"]
      updated_at_after[of "now db" r dto]
    by (metis order_trans order_refl)
  show ?thesis
    using update_rows[of i dto db] update_rest[of i dto db] assms(1) g
    by (auto simp: OpUpdate)
next
  case (OpDelete i)
  then show ?thesis
    using assms(1) by (auto simp: delete_unfold)
next
  case (OpClock t)
  then show ?thesis using assms by fastforce
qed

lemma run_keeps_timestamps:
  assumes "\<forall>r\<in>set (resources db). created_at r \<le> updated_at r \<and> updated_at r \<le> now db"
    and "clock_never_set_back (now db) ops"
  shows "\<forall>r\<in>set (resources (run ops db)). created_at r \<le> updated_at r"
  using assms unfolding run_def
proof (induction ops arbitrary: db)
  case Nil
  then show ?case by simp
next
  case (Cons op ops)
  have n: "now db \<le> now (step db op)" and c: "clock_never_set_back (now (step db op)) ops"
    using Cons.prems(2) update_rest[of _ _ db]
    by (cases op; simp add: create_unfold delete_unfold)+
  show ?case
    using Cons.IH[OF step_keeps_timestamps[OF Cons.prems(1) n] c] by simp
qed

text \<open>
  C6, as the code has it. Both timestamps are the clock's second at the insert, and an
  update sets \<open>updated_at\<close> to the clock's second at the update. So a create on a store
  reached from the empty table by any history returns the new record with
  \<open>created_at = updated_at\<close>; and \<open>updated_at \<ge> created_at\<close> holds for every record of a store
  reached by a history in which the clock is never set back. (With the clock set back between
  a create and an update the record has \<open>updated_at < created_at\<close>.)
\<close>

theorem updated_at_never_before_created_at:
  "(clock_never_set_back t0 ops \<longrightarrow>
      (\<forall>r\<in>set (resources (run ops (empty_database t0))). created_at r \<le> updated_at r)) \<and>
   (\<exists>r. fst (ResourceService_create dto (run ops (empty_database t0))) = Some r \<and>
        created_at r = updated_at r \<and> created_at r = now (run ops (empty_database t0)) \<and>
        r \<in> set (resources (snd (ResourceService_create dto (run ops (empty_database t0))))))"
proof
  show "clock_never_set_back t0 ops \<longrightarrow>
      (\<forall>r\<in>set (resources (run ops (empty_database t0))). created_at r \<le> updated_at r)"
    using run_keeps_timestamps[of "empty_database t0" ops] by (simp add: empty_database_def)
next
  let ?db = "run ops (empty_database t0)"
  let ?row = "\<lparr>id' = sqlite_sequence ?db + 1, name = c_name dto,
           description = c_description dto, category = c_category dto,
           status = (case c_status dto of None \<Rightarrow> Active | Some s \<Rightarrow> s),
           created_at = now ?db, updated_at = now ?db\<rparr>"
  have "\<forall>y\<in>set (resources ?db). \<not> id' y = sqlite_sequence ?db + 1"
    using reachable_ids_bounded[of ops t0] by fastforce
  then have "find (\<lambda>r. id' r = sqlite_sequence ?db + 1) (resources ?db @ [?row]) = Some ?row"
    by (rule find_append_new) simp
  then have "fst (ResourceService_create dto ?db) = Some ?row"
    and "?row \<in> set (resources (snd (ResourceService_create dto ?db)))"
    by (simp_all add: create_unfold)
  then show "\<exists>r. fst (ResourceService_create dto ?db) = Some r \<and>
        created_at r = updated_at r \<and> created_at r = now ?db \<and>
        r \<in> set (resources (snd (ResourceService_create dto ?db)))"
    by (intro exI[of _ ?row]) simp
qed

lemma later_update_row:
  "\<lparr>id' = 1, name = ''Web API v2'', description = ''RESTful API service'',
     category = ''technology'', status = Active, created_at = 0, updated_at = 5\<rparr>
     \<in> set (resources (run [OpCreate sample_dto, OpClock 5, OpUpdate 1 rename_dto] (empty_database 0)))"
  by code_simp

lemma later_update_clock:
  "clock_never_set_back 0 [OpCreate sample_dto, OpClock 5, OpUpdate 1 rename_dto]"
  by simp

theorem updated_at_never_before_created_at_witness:
  "clock_never_set_back 0 [OpCreate sample_dto, OpClock 5, OpUpdate 1 rename_dto] \<and>
   \<lparr>id' = 1, name = ''Web API v2'', description = ''RESTful API service'',
     category = ''technology'', status = Active, created_at = 0, updated_at = 5\<rparr>
     \<in> set (resources (run [OpCreate sample_dto, OpClock 5, OpUpdate 1 rename_dto] (empty_database 0))) \<and>
   created_at \<lparr>id' = 1, name = ''Web API v2'', description = ''RESTful API service'',
     category = ''technology'', status = Active, created_at = 0, updated_at = 5\<rparr>
     \<le> updated_at \<lparr>id' = 1, name = ''Web API v2'', description = ''RESTful API service'',
     category = ''technology'', status = Active, created_at = 0, updated_at = 5\<rparr>"
  using later_update_clock later_update_row
    updated_at_never_before_created_at[of 0 "[OpCreate sample_dto, OpClock 5, OpUpdate 1 rename_dto]",
      THEN conjunct1, THEN mp, OF later_update_clock, THEN bspec, OF later_update_row]
  by (intro conjI)

text \<open>
  The claim without the proviso fails: a record created at second 5 and renamed after the
  clock was set back to second 3 has \<open>created_at = 5\<close> and \<open>updated_at = 3\<close>.
\<close>

theorem updated_at_clock_set_back_counterexample:
  "\<not> clock_never_set_back 5 clock_set_back \<and>
   map id' (resources (run clock_set_back (empty_database 5))) = [1] \<and>
   map created_at (resources (run clock_set_back (empty_database 5))) = [5] \<and>
   map updated_at (resources (run clock_set_back (empty_database 5))) = [3] \<and>
   \<not> list_all (\<lambda>r. created_at r \<le> updated_at r) (resources (run clock_set_back (empty_database 5)))"
  by code_simp

subsection \<open>Listing: count, pagination and order\<close>

lemma order_set: "set (order_by_created_at_desc xs) = set xs"
  by (simp add: order_by_created_at_desc_def)

lemma order_length: "length (order_by_created_at_desc xs) = length xs"
  by (simp add: order_by_created_at_desc_def)

lemma order_mset: "mset (order_by_created_at_desc xs) = mset xs"
  by (simp add: order_by_created_at_desc_def)

lemma order_sorted: "sorted_wrt created_desc (order_by_created_at_desc xs)"
proof -
  have "sorted (map (\<lambda>r. - int (created_at r)) (sort_key (\<lambda>r. - int (created_at r)) xs))"
    by simp
  then have "sorted_wrt (\<lambda>a b. - int (created_at a) \<le> - int (created_at b))
      (sort_key (\<lambda>r. - int (created_at r)) xs)"
    by (simp add: sorted_map)
  then show ?thesis by (simp add: order_by_created_at_desc_def created_desc_def[abs_def])
qed

lemma order_stable:
  "filter (\<lambda>r. created_at r = k) (order_by_created_at_desc xs) = filter (\<lambda>r. created_at r = k) xs"
proof -
  have "filter (\<lambda>r. - int (created_at r) = - int k) (sort_key (\<lambda>r. - int (created_at r)) xs)
      = filter (\<lambda>r. - int (created_at r) = - int k) xs"
    by (rule sort_key_stable)
  then show ?thesis by (simp add: order_by_created_at_desc_def)
qed

lemma sorted_by_creation_then_id:
  assumes "sorted_wrt created_desc R"
    and "\<And>k. sorted_wrt (\<lambda>a b. id' a < id' b) (filter (\<lambda>r. created_at r = k) R)"
  shows "sorted_wrt by_creation_then_id R"
  using assms
proof (induction R)
  case Nil
  then show ?case by simp
next
  case (Cons x R)
  have tail: "sorted_wrt (\<lambda>a b. id' a < id' b) (filter (\<lambda>r. created_at r = k) R)" for k
    using Cons.prems(2)[of k] by (cases "created_at x = k") simp_all
  have ih: "sorted_wrt by_creation_then_id R"
    by (rule Cons.IH) (use Cons.prems(1) tail in simp_all)
  have "by_creation_then_id x y" if y: "y \<in> set R" for y
  proof (cases "created_at y = created_at x")
    case True
    then have "y \<in> set (filter (\<lambda>r. created_at r = created_at x) R)" using y by simp
    then have "id' x < id' y" using Cons.prems(2)[of "created_at x"] by simp
    then show ?thesis using True by (simp add: by_creation_then_id_def)
  next
    case False
    moreover have "created_at y \<le> created_at x"
      using Cons.prems(1) y by (simp add: created_desc_def)
    ultimately show ?thesis by (simp add: by_creation_then_id_def)
  qed
  then show ?case using ih by simp
qed

lemma select_ordered_by_id:
  assumes "sorted_wrt (\<lambda>a b. id' a < id' b) (resources db)"
  shows "sorted_wrt by_creation_then_id (select_ordered e conds db)"
  unfolding select_ordered_def
proof (rule sorted_by_creation_then_id)
  show "sorted_wrt created_desc (order_by_created_at_desc (filter (matches e conds) (resources db)))"
    by (rule order_sorted)
next
  fix k
  show "sorted_wrt (\<lambda>a b. id' a < id' b)
      (filter (\<lambda>r. created_at r = k) (order_by_created_at_desc (filter (matches e conds) (resources db))))"
    unfolding order_stable using assms by (simp add: sorted_wrt_filter)
qed

lemma by_creation_then_id_desc:
  "sorted_wrt by_creation_then_id xs \<Longrightarrow> sorted_wrt created_desc xs"
  by (rule sorted_wrt_mono_rel[of xs by_creation_then_id created_desc])
     (auto simp: by_creation_then_id_def created_desc_def)

lemma sorted_sql_limit: "sorted_wrt P xs \<Longrightarrow> sorted_wrt P (sql_limit l off xs)"
  by (simp add: sql_limit_def Let_def sorted_wrt_take sorted_wrt_drop)

lemma set_sql_limit: "set (sql_limit l off xs) \<subseteq> set xs"
  by (auto simp: sql_limit_def Let_def dest: in_set_takeD in_set_dropD)





lemma getAll_unfold:
  "ResourceService_getAll e filters pgn db =
     (let pg = or_default (case pgn of None \<Rightarrow> None | Some p \<Rightarrow> p_page p) 1;
          lmt = or_default (case pgn of None \<Rightarrow> None | Some p \<Rightarrow> p_limit p) 10;
          off = to_double (to_double (pg - 1) * lmt);
          conds = whereClause filters;
          tot = int (length (filter (matches e conds) (resources db)));
          pages = ceil_div tot lmt
      in ((if bindable lmt \<and> bindable off
           then Inr \<lparr>data = sql_limit lmt off (select_ordered e conds db),
                  pagination = \<lparr>page = pg, limit = lmt, total' = tot, totalPages = pages,
                                 hasNext = (pg < pages), hasPrev = (pg > 1)\<rparr>\<rparr>
           else Inl SqliteError),
          db\<lparr>journal := journal db @ [SelectCount conds, SelectAll conds (Some (lmt, off))]\<rparr>))"
  by (simp add: ResourceService_getAll_def exec_count_def exec_select_page_def log_statement_def
      select_ordered_def Let_def)

lemma getAll_simple_unfold:
  "ResourceService_getAll_simple e filters db =
     (select_ordered e (whereClause filters) db,
      db\<lparr>journal := journal db @ [SelectAll (whereClause filters) None]\<rparr>)"
  by (simp add: ResourceService_getAll_simple_def exec_select_def log_statement_def)

lemma select_ordered_length:
  "length (select_ordered e conds db) = length (filter (matches e conds) (resources db))"
  by (simp add: select_ordered_def order_length)

lemma select_ordered_mset:
  "mset (select_ordered e conds db) = filter_mset (matches e conds) (mset (resources db))"
  by (simp add: select_ordered_def order_mset)

lemma list_all_when_truthy:
  "list_all P (when_truthy v mk) \<longleftrightarrow> (\<forall>s. v = Some s \<and> s \<noteq> [] \<longrightarrow> P (mk s))"
  by (cases v) (simp_all add: when_truthy_def)

lemma matches_whereClause:
  "matches e (whereClause (Some f)) r \<longleftrightarrow>
     (\<forall>v. f_name f = Some v \<and> v \<noteq> [] \<longrightarrow> sql_like (''%'' @ v @ ''%'') (name r)) \<and>
     (\<forall>v. f_category f = Some v \<and> v \<noteq> [] \<longrightarrow> category r = v) \<and>
     (\<forall>v. f_status f = Some v \<and> v \<noteq> [] \<longrightarrow> status_text (status r) = v) \<and>
     (\<forall>v. f_created_at f = Some v \<and> v \<noteq> [] \<longrightarrow> date_of_text e v = Some (created_at r div 86400)) \<and>
     (\<forall>v. f_search f = Some v \<and> v \<noteq> [] \<longrightarrow>
        sql_like (''%'' @ v @ ''%'') (name r) \<or> sql_like (''%'' @ v @ ''%'') (description r))"
  by (simp add: matches_def whereClause_def list_all_when_truthy column_text_def)

lemma when_truthy_empty: "v = None \<or> v = Some [] \<Longrightarrow> when_truthy v mk = []"
  by (auto simp: when_truthy_def)

lemma whereClause_empty:
  assumes "filters = None \<or>
    (\<exists>f. filters = Some f \<and> (f_name f = None \<or> f_name f = Some []) \<and>
        (f_category f = None \<or> f_category f = Some []) \<and>
        (f_status f = None \<or> f_status f = Some []) \<and>
        (f_created_at f = None \<or> f_created_at f = Some []) \<and>
        (f_search f = None \<or> f_search f = Some []))"
  shows "whereClause filters = []"
  using assms by (auto simp: whereClause_def when_truthy_empty)

text \<open>
  C3. The count query and the data query of a list request are sent with the same condition
  list, built from the supplied filters (a filter is supplied when it is defined and not the
  empty string). A record satisfies that list exactly when it satisfies every supplied
  condition: name and search by \<open>LIKE '%v%'\<close> (search on name or description), category and
  status by equality, \<open>created_at\<close> by equality of dates. So the reported total is the number
  of records the data query returns once \<open>LIMIT\<close> and \<open>OFFSET\<close> are removed, the records of a
  page are taken from that answer, and that answer holds exactly the records of the table
  that satisfy the conditions. With no filter supplied the condition list is empty, every
  record matches, and the total is the size of the table.
\<close>

theorem count_agrees_with_data_query:
  "(\<exists>l off. journal (snd (ResourceService_getAll e filters pgn db)) =
       journal db @
         [SelectCount (whereClause filters), SelectAll (whereClause filters) (Some (l, off))]) \<and>
   (\<forall>resp. fst (ResourceService_getAll e filters pgn db) = Inr resp \<longrightarrow>
       total' (pagination resp) = int (length (fst (exec_select e (whereClause filters) db))) \<and>
       (\<exists>off. data resp =
          sql_limit (limit (pagination resp)) off (fst (exec_select e (whereClause filters) db)))) \<and>
   mset (fst (exec_select e (whereClause filters) db))
     = filter_mset (matches e (whereClause filters)) (mset (resources db)) \<and>
   (\<forall>f r. filters = Some f \<longrightarrow>
      (matches e (whereClause filters) r \<longleftrightarrow>
         (\<forall>v. f_name f = Some v \<and> v \<noteq> [] \<longrightarrow> sql_like (''%'' @ v @ ''%'') (name r)) \<and>
         (\<forall>v. f_category f = Some v \<and> v \<noteq> [] \<longrightarrow> category r = v) \<and>
         (\<forall>v. f_status f = Some v \<and> v \<noteq> [] \<longrightarrow> status_text (status r) = v) \<and>
         (\<forall>v. f_created_at f = Some v \<and> v \<noteq> [] \<longrightarrow>
            date_of_text e v = Some (created_at r div 86400)) \<and>
         (\<forall>v. f_search f = Some v \<and> v \<noteq> [] \<longrightarrow>
            sql_like (''%'' @ v @ ''%'') (name r) \<or>
            sql_like (''%'' @ v @ ''%'') (description r)))) \<and>
   (filters = None \<or>
      (\<exists>f. filters = Some f \<and> (f_name f = None \<or> f_name f = Some []) \<and>
         (f_category f = None \<or> f_category f = Some []) \<and>
         (f_status f = None \<or> f_status f = Some []) \<and>
         (f_created_at f = None \<or> f_created_at f = Some []) \<and>
         (f_search f = None \<or> f_search f = Some [])) \<longrightarrow>
    whereClause filters = [] \<and>
    (\<forall>r. matches e (whereClause filters) r) \<and>
    mset (fst (exec_select e (whereClause filters) db)) = mset (resources db) \<and>
    (\<forall>resp. fst (ResourceService_getAll e filters pgn db) = Inr resp \<longrightarrow>
       total' (pagination resp) = int (length (resources db))))"
proof -
  let ?conds = "whereClause filters"
  let ?full = "fst (exec_select e ?conds db)"
  have full: "?full = select_ordered e ?conds db" by (simp add: exec_select_def)
  have j: "\<exists>l off. journal (snd (ResourceService_getAll e filters pgn db)) =
       journal db @ [SelectCount ?conds, SelectAll ?conds (Some (l, off))]"
    unfolding getAll_unfold Let_def by simp
  have t: "total' (pagination resp) = int (length ?full) \<and>
       (\<exists>off. data resp = sql_limit (limit (pagination resp)) off ?full)"
    if "fst (ResourceService_getAll e filters pgn db) = Inr resp" for resp
    using that unfolding getAll_unfold Let_def full select_ordered_length
    by (auto split: if_splits)
  have m: "mset ?full = filter_mset (matches e ?conds) (mset (resources db))"
    unfolding full by (rule select_ordered_mset)
  have c: "matches e ?conds r \<longleftrightarrow>
         (\<forall>v. f_name f = Some v \<and> v \<noteq> [] \<longrightarrow> sql_like (''%'' @ v @ ''%'') (name r)) \<and>
         (\<forall>v. f_category f = Some v \<and> v \<noteq> [] \<longrightarrow> category r = v) \<and>
         (\<forall>v. f_status f = Some v \<and> v \<noteq> [] \<longrightarrow> status_text (status r) = v) \<and>
         (\<forall>v. f_created_at f = Some v \<and> v \<noteq> [] \<longrightarrow>
            date_of_text e v = Some (created_at r div 86400)) \<and>
         (\<forall>v. f_search f = Some v \<and> v \<noteq> [] \<longrightarrow>
            sql_like (''%'' @ v @ ''%'') (name r) \<or>
            sql_like (''%'' @ v @ ''%'') (description r))"
    if "filters = Some f" for f r
    unfolding that by (rule matches_whereClause)
  have n: "whereClause filters = [] \<and>
    (\<forall>r. matches e ?conds r) \<and>
    mset ?full = mset (resources db) \<and>
    (\<forall>resp. fst (ResourceService_getAll e filters pgn db) = Inr resp \<longrightarrow>
       total' (pagination resp) = int (length (resources db)))"
    if w: "whereClause filters = []"
  proof -
    have all: "\<forall>r. matches e ?conds r" by (simp add: w matches_def)
    then have "filter_mset (matches e ?conds) (mset (resources db)) = mset (resources db)"
      by (simp add: filter_mset_eq_conv)
    then have ms: "mset ?full = mset (resources db)" using m by simp
    then have "length ?full = length (resources db)" by (metis size_mset)
    then show ?thesis using w all ms t by simp
  qed
  show ?thesis
    apply (intro conjI)
    subgoal by (rule j)
    subgoal using t by blast
    subgoal by (rule m)
    subgoal using c by blast
    subgoal using n whereClause_empty by blast
    done
qed

lemma filtered_list_answered:
  "\<not> isl (fst (ResourceService_getAll plain_engine (Some technology_active) None mixed_rows))"
  by code_simp

lemma filtered_list_ids:
  "map id' (fst (exec_select plain_engine (whereClause (Some technology_active)) mixed_rows))
     = [4, 1, 2]"
  by code_simp

lemma filtered_list_matches:
  "map (\<lambda>r. (category r, matches plain_engine (whereClause (Some technology_active)) r))
     (resources mixed_rows)
     = [(''technology'', True), (''technology'', True), (''mobile'', False), (''technology'', True)]"
  by code_simp

theorem count_agrees_with_data_query_witness:
  "total' (pagination (projr (fst (ResourceService_getAll plain_engine (Some technology_active)
      None mixed_rows))))
     = int (length (fst (exec_select plain_engine (whereClause (Some technology_active)) mixed_rows))) \<and>
   map id' (fst (exec_select plain_engine (whereClause (Some technology_active)) mixed_rows))
     = [4, 1, 2] \<and>
   map (\<lambda>r. (category r, matches plain_engine (whereClause (Some technology_active)) r))
     (resources mixed_rows)
     = [(''technology'', True), (''technology'', True), (''mobile'', False), (''technology'', True)]"
proof -
  have h: "fst (ResourceService_getAll plain_engine (Some technology_active) None mixed_rows)
      = Inr (projr (fst (ResourceService_getAll plain_engine (Some technology_active) None mixed_rows)))"
    using filtered_list_answered by (rule sum.collapse(2)[symmetric])
  have a: "total' (pagination (projr (fst (ResourceService_getAll plain_engine
      (Some technology_active) None mixed_rows))))
     = int (length (fst (exec_select plain_engine (whereClause (Some technology_active)) mixed_rows)))"
    using count_agrees_with_data_query[of plain_engine "Some technology_active" None mixed_rows,
        THEN conjunct2, THEN conjunct1, THEN spec, THEN mp, OF h, THEN conjunct1] .
  show ?thesis using a filtered_list_ids filtered_list_matches by (intro conjI)
qed









text \<open>
  C1. For every list request on a store reached from the empty table by creates, updates
  and deletes (with any clock), with or without pagination, the returned records are ordered
  by creation time, descending, and records of equal creation time by ascending id: the
  statement sorts by \<open>created_at\<close> alone, the rows are read in rowid order, ids are given in
  increasing order, and the sort keeps the order read among equal keys. A page is the slice
  of that one ordered answer from its offset on, so consecutive pages neither repeat nor skip
  a record, also among records created in the same second.
\<close>

theorem list_ordered_by_creation_time_desc:
  "sorted_wrt by_creation_then_id
     (fst (ResourceService_getAll_simple e filters (run ops (empty_database t0)))) \<and>
   sorted_wrt created_desc
     (fst (ResourceService_getAll_simple e filters (run ops (empty_database t0)))) \<and>
   (\<forall>resp. fst (ResourceService_getAll e filters pgn (run ops (empty_database t0))) = Inr resp \<longrightarrow>
      sorted_wrt by_creation_then_id (data resp) \<and>
      sorted_wrt created_desc (data resp) \<and>
      data resp =
        sql_limit (limit (pagination resp))
          (to_double (to_double (page (pagination resp) - 1) * limit (pagination resp)))
          (fst (ResourceService_getAll_simple e filters (run ops (empty_database t0)))))"
proof -
  let ?db = "run ops (empty_database t0)"
  let ?full = "select_ordered e (whereClause filters) ?db"
  have simple: "fst (ResourceService_getAll_simple e filters ?db) = ?full"
    by (simp add: getAll_simple_unfold)
  have full: "sorted_wrt by_creation_then_id ?full"
    by (rule select_ordered_by_id[OF reachable_ids_ascending])
  have desc: "sorted_wrt created_desc ?full"
    by (rule by_creation_then_id_desc[OF full])
  have page: "sorted_wrt by_creation_then_id (data resp) \<and>
      sorted_wrt created_desc (data resp) \<and>
      data resp =
        sql_limit (limit (pagination resp))
          (to_double (to_double (page (pagination resp) - 1) * limit (pagination resp))) ?full"
    if r: "fst (ResourceService_getAll e filters pgn ?db) = Inr resp" for resp
  proof -
    have d: "data resp =
        sql_limit (limit (pagination resp))
          (to_double (to_double (page (pagination resp) - 1) * limit (pagination resp))) ?full"
      using r unfolding getAll_unfold Let_def by (auto split: if_splits)
    show ?thesis
      using sorted_sql_limit[OF full] sorted_sql_limit[OF desc] d by simp
  qed
  show ?thesis unfolding simple using full desc page by blast
qed

lemma mixed_list_ids:
  "map (\<lambda>r. (id' r, created_at r)) (fst (ResourceService_getAll_simple plain_engine None mixed_rows))
     = [(3, 7), (4, 7), (1, 0), (2, 0)]"
  by code_simp

lemma mixed_page_answered:
  "\<not> isl (fst (ResourceService_getAll plain_engine None
       (Some \<lparr>p_page = Some 2, p_limit = Some 3\<rparr>) mixed_rows))"
  by code_simp

lemma mixed_page_ids:
  "map id' (data (projr (fst (ResourceService_getAll plain_engine None
       (Some \<lparr>p_page = Some 1, p_limit = Some 3\<rparr>) mixed_rows)))) = [3, 4, 1] \<and>
   map id' (data (projr (fst (ResourceService_getAll plain_engine None
       (Some \<lparr>p_page = Some 2, p_limit = Some 3\<rparr>) mixed_rows)))) = [2]"
  by code_simp

theorem list_ordered_by_creation_time_desc_witness:
  "map (\<lambda>r. (id' r, created_at r)) (fst (ResourceService_getAll_simple plain_engine None mixed_rows))
     = [(3, 7), (4, 7), (1, 0), (2, 0)] \<and>
   sorted_wrt by_creation_then_id (fst (ResourceService_getAll_simple plain_engine None mixed_rows)) \<and>
   \<not> isl (fst (ResourceService_getAll plain_engine None
       (Some \<lparr>p_page = Some 2, p_limit = Some 3\<rparr>) mixed_rows)) \<and>
   sorted_wrt by_creation_then_id (data (projr (fst (ResourceService_getAll plain_engine None
       (Some \<lparr>p_page = Some 2, p_limit = Some 3\<rparr>) mixed_rows)))) \<and>
   map id' (data (projr (fst (ResourceService_getAll plain_engine None
       (Some \<lparr>p_page = Some 1, p_limit = Some 3\<rparr>) mixed_rows)))) = [3, 4, 1] \<and>
   map id' (data (projr (fst (ResourceService_getAll plain_engine None
       (Some \<lparr>p_page = Some 2, p_limit = Some 3\<rparr>) mixed_rows)))) = [2]"
proof -
  let ?pgn = "Some \<lparr>p_page = Some 2, p_limit = Some 3\<rparr>"
  note w = list_ordered_by_creation_time_desc[of plain_engine None
      "[OpCreate sample_dto, OpCreate sample_dto, OpClock 7, OpCreate mobile_dto, OpCreate sample_dto]"
      0 ?pgn, folded mixed_rows_def]
  have h: "fst (ResourceService_getAll plain_engine None ?pgn mixed_rows)
      = Inr (projr (fst (ResourceService_getAll plain_engine None ?pgn mixed_rows)))"
    using mixed_page_answered by (rule sum.collapse(2)[symmetric])
  have a: "sorted_wrt by_creation_then_id
      (fst (ResourceService_getAll_simple plain_engine None mixed_rows))"
    using w[THEN conjunct1] .
  have b: "sorted_wrt by_creation_then_id
      (data (projr (fst (ResourceService_getAll plain_engine None ?pgn mixed_rows))))"
    using w[THEN conjunct2, THEN conjunct2, THEN spec, THEN mp, OF h, THEN conjunct1] .
  show ?thesis
    using mixed_list_ids a mixed_page_answered b mixed_page_ids[THEN conjunct1]
      mixed_page_ids[THEN conjunct2]
    by (intro conjI)
qed

end
